theory Spec2Isabelle
  imports Main "HOL-Library.Sublist"
begin

section \<open>Values and errors\<close>

text \<open>
  The program (\<^verbatim>\<open>app.py\<close>) handles the decoded answers of the inference service as
  plain Python objects: whatever \<^verbatim>\<open>json.loads\<close> returns. A decoded value is a
  \<open>json\<close>; a Python \<^verbatim>\<open>dict\<close> is an association list in insertion order (the order
  decides the columns of the exported table). Numbers with a fraction or an exponent
  keep their lexeme: the program never computes with them.
\<close>

datatype json =
    JNull
  | JBool bool
  | JInt int
  | JFloat string
  | JStr string
  | JArr "json list"
  | JObj "(string \<times> json) list"

type_synonym pydict = "(string \<times> json) list"

text \<open>
  The exceptions that the modelled statements can raise. \<open>ServiceError\<close> stands for
  whatever the inference client raises (network, authentication, quota). \<open>OutOfFuel\<close>
  is not a Python exception: it is the value of the decoder's recursion when its step
  budget is used up, which never happens with the budget that \<open>json_loads\<close> gives
  (lemma \<open>json_loads_no_fuel\<close>).
\<close>

datatype error =
    KeyError string
  | TypeError
  | AttributeError
  | JSONDecodeError
  | ServiceError string
  | OutOfFuel

section \<open>Python operations on decoded values\<close>

text \<open>\<^verbatim>\<open>d[k] = v\<close> on a dict: an existing key keeps its position, a new key goes last.\<close>

fun dict_set :: "pydict \<Rightarrow> string \<Rightarrow> json \<Rightarrow> pydict" where
  "dict_set [] k v = [(k, v)]"
| "dict_set ((k', v') # d) k v =
     (if k' = k then (k', v) # d else (k', v') # dict_set d k v)"

text \<open>\<^verbatim>\<open>{**d, **e}\<close>: the entries of \<open>e\<close> are stored into \<open>d\<close> one by one, in order.\<close>

definition dict_update :: "pydict \<Rightarrow> pydict \<Rightarrow> pydict" where
  "dict_update d e = fold (\<lambda>(k, v) acc. dict_set acc k v) e d"

text \<open>
  \<^verbatim>\<open>obj[k]\<close> with a string key: a dict raises \<^verbatim>\<open>KeyError\<close> on a missing key, every
  other decoded value (list, string, number, boolean, null) raises \<^verbatim>\<open>TypeError\<close>.
\<close>

fun getitem :: "json \<Rightarrow> string \<Rightarrow> error + json" where
  "getitem (JObj d) k = (case map_of d k of None \<Rightarrow> Inl (KeyError k) | Some v \<Rightarrow> Inr v)"
| "getitem _ k = Inl TypeError"

text \<open>
  \<^verbatim>\<open>obj.get(k, default)\<close>: only a dict has the method; every other decoded value
  raises \<^verbatim>\<open>AttributeError\<close>.
\<close>

fun py_get :: "json \<Rightarrow> string \<Rightarrow> json \<Rightarrow> error + json" where
  "py_get (JObj d) k dflt = Inr (case map_of d k of None \<Rightarrow> dflt | Some v \<Rightarrow> v)"
| "py_get _ k dflt = Inl AttributeError"

text \<open>
  \<^verbatim>\<open>for item in obj\<close>: a list yields its elements, a dict its keys, a string its
  characters (as one-character strings); anything else is not iterable.
\<close>

fun py_iter :: "json \<Rightarrow> error + json list" where
  "py_iter (JArr xs) = Inr xs"
| "py_iter (JObj d) = Inr (map (\<lambda>(k, v). JStr k) d)"
| "py_iter (JStr s) = Inr (map (\<lambda>c. JStr [c]) s)"
| "py_iter _ = Inl TypeError"

text \<open>\<^verbatim>\<open>**obj\<close> inside a dict display: the operand must be a mapping.\<close>

fun as_mapping :: "json \<Rightarrow> error + pydict" where
  "as_mapping (JObj d) = Inr d"
| "as_mapping _ = Inl TypeError"

section \<open>Merge engine\<close>

text \<open>
  \<^verbatim>\<open>data["items"]\<close> followed by the iteration over it, as all three loops start:
  the sequence of items that the loop will visit, or the exception raised before the
  first iteration.
\<close>

definition iter_items :: "json \<Rightarrow> error + json list" where
  "iter_items data =
     (case getitem data ''items'' of
        Inl e \<Rightarrow> Inl e
      | Inr its \<Rightarrow> py_iter its)"

text \<open>
  The six placeholder entries that close every merged row
  (\<^verbatim>\<open>"GRN no": "", ..., "Rejected Amount": ""\<close>).
\<close>

definition placeholders :: pydict where
  "placeholders =
     [(''GRN no'', JStr ''''), (''GRN Date'', JStr ''''), (''Delivered Qty'', JStr ''''),
      (''Remarks'', JStr ''''), (''MRN no'', JStr ''''), (''Rejected Amount'', JStr '''')]"

text \<open>
  The dict display of the first loop:
  \<^verbatim>\<open>{**header, **item, "GRN no": "", ..., "Rejected Amount": ""}\<close>.
\<close>

definition make_row :: "json \<Rightarrow> json \<Rightarrow> error + pydict" where
  "make_row header item =
     (case as_mapping header of
        Inl e \<Rightarrow> Inl e
      | Inr h \<Rightarrow>
          (case as_mapping item of
             Inl e \<Rightarrow> Inl e
           | Inr it \<Rightarrow> Inr (dict_update (dict_update (dict_update [] h) it) placeholders)))"

text \<open>\<^verbatim>\<open>for item in po_items: rows.append({...})\<close>; the first failing item ends the run.\<close>

fun build_rows :: "json \<Rightarrow> json list \<Rightarrow> error + pydict list" where
  "build_rows header [] = Inr []"
| "build_rows header (item # items) =
     (case make_row header item of
        Inl e \<Rightarrow> Inl e
      | Inr r \<Rightarrow>
          (case build_rows header items of
             Inl e \<Rightarrow> Inl e
           | Inr rs \<Rightarrow> Inr (r # rs)))"

text \<open>
  Lines 197 to 211: \<^verbatim>\<open>header = po_data["header"]\<close>, \<^verbatim>\<open>po_items = po_data["items"]\<close>,
  then the loop over \<^verbatim>\<open>po_items\<close>.
\<close>

definition po_rows :: "json \<Rightarrow> error + pydict list" where
  "po_rows po_data =
     (case getitem po_data ''header'' of
        Inl e \<Rightarrow> Inl e
      | Inr header \<Rightarrow>
          (case iter_items po_data of
             Inl e \<Rightarrow> Inl e
           | Inr items \<Rightarrow> build_rows header items))"

text \<open>
  The body of the GRN loop for one row that is in range. The right-hand side of each
  assignment is evaluated before the row is written, in the order of the source.
\<close>

definition grn_body :: "json \<Rightarrow> pydict \<Rightarrow> json \<Rightarrow> error + pydict" where
  "grn_body grn_data row item =
     (case getitem grn_data ''header'' of
        Inl e \<Rightarrow> Inl e
      | Inr h1 \<Rightarrow>
     (case getitem h1 ''GRN no'' of
        Inl e \<Rightarrow> Inl e
      | Inr grn_no \<Rightarrow>
     (case getitem grn_data ''header'' of
        Inl e \<Rightarrow> Inl e
      | Inr h2 \<Rightarrow>
     (case getitem h2 ''GRN Date'' of
        Inl e \<Rightarrow> Inl e
      | Inr grn_date \<Rightarrow>
     (case py_get item ''Delivered Qty'' (JStr '''') of
        Inl e \<Rightarrow> Inl e
      | Inr qty \<Rightarrow>
     (case py_get item ''Remarks'' (JStr '''') of
        Inl e \<Rightarrow> Inl e
      | Inr remarks \<Rightarrow>
          Inr (dict_set (dict_set (dict_set (dict_set row
                 ''GRN no'' grn_no) ''GRN Date'' grn_date)
                 ''Delivered Qty'' qty) ''Remarks'' remarks)))))))"

text \<open>The body of the MRN loop for one row that is in range.\<close>

definition mrn_body :: "json \<Rightarrow> pydict \<Rightarrow> json \<Rightarrow> error + pydict" where
  "mrn_body mrn_data row item =
     (case getitem mrn_data ''header'' of
        Inl e \<Rightarrow> Inl e
      | Inr h \<Rightarrow>
     (case getitem h ''MRN no'' of
        Inl e \<Rightarrow> Inl e
      | Inr mrn_no \<Rightarrow>
     (case py_get item ''Rejected Amount'' (JStr '''') of
        Inl e \<Rightarrow> Inl e
      | Inr amount \<Rightarrow>
          Inr (dict_set (dict_set row ''MRN no'' mrn_no) ''Rejected Amount'' amount))))"

text \<open>
  \<^verbatim>\<open>for i, item in enumerate(items): if i < len(rows): <body on rows[i]>\<close>,
  the counter \<open>i\<close> starting where the caller says (0 in the program).
\<close>

fun overlay_loop ::
  "(pydict \<Rightarrow> json \<Rightarrow> error + pydict) \<Rightarrow> nat \<Rightarrow> pydict list \<Rightarrow> json list \<Rightarrow> error + pydict list"
where
  "overlay_loop body i rows [] = Inr rows"
| "overlay_loop body i rows (item # items) =
     (if i < length rows then
        (case body (rows ! i) item of
           Inl e \<Rightarrow> Inl e
         | Inr r \<Rightarrow> overlay_loop body (Suc i) (rows[i := r]) items)
      else overlay_loop body (Suc i) rows items)"

text \<open>Lines 217 to 222 and 228 to 231: the loops over \<^verbatim>\<open>grn_data["items"]\<close> and
  \<^verbatim>\<open>mrn_data["items"]\<close>.\<close>

definition overlay_grn :: "pydict list \<Rightarrow> json \<Rightarrow> error + pydict list" where
  "overlay_grn rows grn_data =
     (case iter_items grn_data of
        Inl e \<Rightarrow> Inl e
      | Inr items \<Rightarrow> overlay_loop (grn_body grn_data) 0 rows items)"

definition overlay_mrn :: "pydict list \<Rightarrow> json \<Rightarrow> error + pydict list" where
  "overlay_mrn rows mrn_data =
     (case iter_items mrn_data of
        Inl e \<Rightarrow> Inl e
      | Inr items \<Rightarrow> overlay_loop (mrn_body mrn_data) 0 rows items)"

text \<open>The three steps in the order of the program, on three extraction results.\<close>

definition merge_engine :: "json \<Rightarrow> json \<Rightarrow> json \<Rightarrow> error + pydict list" where
  "merge_engine po_data grn_data mrn_data =
     (case po_rows po_data of
        Inl e \<Rightarrow> Inl e
      | Inr rows \<Rightarrow>
          (case overlay_grn rows grn_data of
             Inl e \<Rightarrow> Inl e
           | Inr rows1 \<Rightarrow> overlay_mrn rows1 mrn_data))"

section \<open>Document loader\<close>

text \<open>
  A PDF is the list of its pages; a page is what \<^verbatim>\<open>page.extract_text()\<close> returns for
  it: \<^verbatim>\<open>None\<close> or a string. \<^verbatim>\<open>if txt:\<close> holds for a non-empty string only.
\<close>

type_synonym page = "string option"

type_synonym pdf = "page list"

fun extract_pages :: "string \<Rightarrow> page list \<Rightarrow> string" where
  "extract_pages text_all [] = text_all"
| "extract_pages text_all (page # pages) =
     (case page of
        None \<Rightarrow> extract_pages text_all pages
      | Some txt \<Rightarrow>
          if txt \<noteq> [] then extract_pages (text_all @ txt @ [CHR 0x0A]) pages
          else extract_pages text_all pages)"

definition extract_pdf_text :: "pdf \<Rightarrow> string" where
  "extract_pdf_text pdf = extract_pages [] pdf"

section \<open>Response parser: the brace slice\<close>

text \<open>\<^verbatim>\<open>s.find(c)\<close> and \<^verbatim>\<open>s.rfind(c)\<close> for a single character: an index, or -1.\<close>

definition py_find :: "string \<Rightarrow> char \<Rightarrow> int" where
  "py_find s c =
     (if c \<in> set s then int (length (takeWhile (\<lambda>x. x \<noteq> c) s)) else - 1)"

definition py_rfind :: "string \<Rightarrow> char \<Rightarrow> int" where
  "py_rfind s c =
     (if c \<in> set s
      then int (length s) - 1 - int (length (takeWhile (\<lambda>x. x \<noteq> c) (rev s)))
      else - 1)"

text \<open>
  \<^verbatim>\<open>s[start:stop]\<close>: a negative bound counts from the end, both bounds are clamped to
  the string, and the slice is empty when the bounds cross.
\<close>

definition py_slice :: "string \<Rightarrow> int \<Rightarrow> int \<Rightarrow> string" where
  "py_slice s start stop =
     (let n = int (length s);
          lo = (if start < 0 then max (start + n) 0 else min start n);
          hi = (if stop < 0 then max (stop + n) 0 else min stop n)
      in take (nat (hi - lo)) (drop (nat lo) s))"

text \<open>Lines 161 and 162, and the argument of \<^verbatim>\<open>json.loads\<close> on line 164.\<close>

definition brace_slice :: "string \<Rightarrow> string" where
  "brace_slice raw =
     (let start = py_find raw (CHR ''{'');
          end = py_rfind raw (CHR ''}'') + 1
      in py_slice raw start end)"

section \<open>The decoder \<^verbatim>\<open>json.loads\<close>\<close>

text \<open>
  \<^verbatim>\<open>json.loads\<close> belongs to the Python standard library, not to the program. It is
  modelled here after the library's decoder (\<^verbatim>\<open>json/decoder.py\<close>, \<^verbatim>\<open>json/scanner.py\<close>)
  so that the parser can be run on concrete answers: strings are UTF-8 byte sequences,
  a number with a fraction or an exponent keeps its lexeme instead of becoming a float,
  and the interpreter's recursion limit is not modelled.
\<close>

text \<open>The decoder's white space: space, tab, line feed, carriage return.\<close>

definition is_ws :: "char \<Rightarrow> bool" where
  "is_ws c = (c = CHR 0x20 \<or> c = CHR 0x09 \<or> c = CHR 0x0A \<or> c = CHR 0x0D)"

definition skip_ws :: "string \<Rightarrow> string" where
  "skip_ws s = dropWhile is_ws s"

definition is_digit :: "char \<Rightarrow> bool" where
  "is_digit c = (48 \<le> (of_char c :: nat) \<and> (of_char c :: nat) \<le> 57)"

definition digit_val :: "char \<Rightarrow> nat" where
  "digit_val c = of_char c - 48"

definition hex_val :: "char \<Rightarrow> nat option" where
  "hex_val c =
     (let n = (of_char c :: nat) in
      if 48 \<le> n \<and> n \<le> 57 then Some (n - 48)
      else if 65 \<le> n \<and> n \<le> 70 then Some (n - 55)
      else if 97 \<le> n \<and> n \<le> 102 then Some (n - 87)
      else None)"

definition hex4 :: "char \<Rightarrow> char \<Rightarrow> char \<Rightarrow> char \<Rightarrow> nat option" where
  "hex4 a b c d =
     (case (hex_val a, hex_val b, hex_val c, hex_val d) of
        (Some w, Some x, Some y, Some z) \<Rightarrow> Some (((w * 16 + x) * 16 + y) * 16 + z)
      | _ \<Rightarrow> None)"

text \<open>The UTF-8 bytes of a code point (a lone surrogate is encoded like any other).\<close>

definition utf8 :: "nat \<Rightarrow> string" where
  "utf8 n =
     (if n < 0x80 then [char_of n]
      else if n < 0x800 then [char_of (0xC0 + n div 64), char_of (0x80 + n mod 64)]
      else if n < 0x10000 then
        [char_of (0xE0 + n div 4096), char_of (0x80 + n div 64 mod 64), char_of (0x80 + n mod 64)]
      else
        [char_of (0xF0 + n div 262144), char_of (0x80 + n div 4096 mod 64),
         char_of (0x80 + n div 64 mod 64), char_of (0x80 + n mod 64)])"

definition simple_escape :: "char \<Rightarrow> char option" where
  "simple_escape e =
     (if e = CHR 0x22 then Some (CHR 0x22)
      else if e = CHR 0x5C then Some (CHR 0x5C)
      else if e = CHR ''/'' then Some (CHR ''/'')
      else if e = CHR ''b'' then Some (CHR 0x08)
      else if e = CHR ''f'' then Some (CHR 0x0C)
      else if e = CHR ''n'' then Some (CHR 0x0A)
      else if e = CHR ''r'' then Some (CHR 0x0D)
      else if e = CHR ''t'' then Some (CHR 0x09)
      else None)"

text \<open>
  One escape sequence, read after its backslash: the bytes it stands for and the rest of
  the input. \<^verbatim>\<open>\uXXXX\<close> takes four hexadecimal digits; a high surrogate followed by an
  escaped low surrogate is one code point.
\<close>

definition scan_escape :: "string \<Rightarrow> (string \<times> string) option" where
  "scan_escape s =
     (case s of
        [] \<Rightarrow> None
      | e # r \<Rightarrow>
          if e = CHR ''u'' then
            (case r of
               a # b # c # d # r' \<Rightarrow>
                 (case hex4 a b c d of
                    None \<Rightarrow> None
                  | Some hi \<Rightarrow>
                      (case r' of
                         bs # u # a2 # b2 # c2 # d2 # r'' \<Rightarrow>
                           (case hex4 a2 b2 c2 d2 of
                              Some lo \<Rightarrow>
                                if 0xD800 \<le> hi \<and> hi \<le> 0xDBFF \<and> bs = CHR 0x5C \<and> u = CHR ''u''
                                   \<and> 0xDC00 \<le> lo \<and> lo \<le> 0xDFFF
                                then Some (utf8 (0x10000 + (hi - 0xD800) * 1024 + (lo - 0xDC00)), r'')
                                else Some (utf8 hi, r')
                            | None \<Rightarrow> Some (utf8 hi, r'))
                       | _ \<Rightarrow> Some (utf8 hi, r')))
             | _ \<Rightarrow> None)
          else (case simple_escape e of None \<Rightarrow> None | Some c \<Rightarrow> Some ([c], r)))"

text \<open>
  \<^verbatim>\<open>scanstring\<close> in strict mode, read after the opening quote: the string and the
  input after its closing quote. A control character or the end of the input inside the
  string is an error.
\<close>

function scanstring :: "string \<Rightarrow> error + (string \<times> string)" where
  "scanstring [] = Inl JSONDecodeError"
| "scanstring (c # cs) =
     (if c = CHR 0x22 then Inr ([], cs)
      else if c = CHR 0x5C then
        (case scan_escape cs of
           None \<Rightarrow> Inl JSONDecodeError
         | Some (x, r) \<Rightarrow>
             (case scanstring r of
                Inl e \<Rightarrow> Inl e
              | Inr (str, rest) \<Rightarrow> Inr (x @ str, rest)))
      else if (of_char c :: nat) < 0x20 then Inl JSONDecodeError
      else
        (case scanstring cs of
           Inl e \<Rightarrow> Inl e
         | Inr (str, rest) \<Rightarrow> Inr (c # str, rest)))"
  by pat_completeness auto
termination
  by (relation "measure length") (auto simp: scan_escape_def split: list.splits if_splits option.splits)

text \<open>
  The number pattern
  \<^verbatim>\<open>(-?(?:0|[1-9][0-9]*))(\.[0-9]+)?([eE][-+]?[0-9]+)?\<close>: the integer part, then the
  optional fraction and exponent, each taken only when it is complete.
\<close>

definition digits_val :: "string \<Rightarrow> nat" where
  "digits_val ds = foldl (\<lambda>acc d. acc * 10 + digit_val d) 0 ds"

definition match_exponent :: "string \<Rightarrow> string \<times> string" where
  "match_exponent s =
     (case s of
        [] \<Rightarrow> ([], s)
      | e # r \<Rightarrow>
          if e = CHR ''e'' \<or> e = CHR ''E'' then
            (let (sgn, r1) =
                   (case r of
                      [] \<Rightarrow> ([], r)
                    | g # r' \<Rightarrow> if g = CHR ''-'' \<or> g = CHR ''+'' then ([g], r') else ([], r))
             in if takeWhile is_digit r1 = [] then ([], s)
                else (e # sgn @ takeWhile is_digit r1, dropWhile is_digit r1))
          else ([], s))"

definition match_fraction :: "string \<Rightarrow> string \<times> string" where
  "match_fraction s =
     (case s of
        [] \<Rightarrow> ([], s)
      | p # r \<Rightarrow>
          if p = CHR ''.'' \<and> takeWhile is_digit r \<noteq> []
          then (p # takeWhile is_digit r, dropWhile is_digit r)
          else ([], s))"

definition match_number :: "string \<Rightarrow> (json \<times> string) option" where
  "match_number s =
     (let (neg, s1) = (case s of [] \<Rightarrow> (False, s) | c # r \<Rightarrow> if c = CHR ''-'' then (True, r) else (False, s))
      in case s1 of
           [] \<Rightarrow> None
         | d # ds \<Rightarrow>
             if \<not> is_digit d then None
             else
               (let (ipart, s2) =
                      (if d = CHR ''0'' then ([d], ds)
                       else (d # takeWhile is_digit ds, dropWhile is_digit ds));
                    (frac, s3) = match_fraction s2;
                    (ex, s4) = match_exponent s3
                in if frac = [] \<and> ex = []
                   then Some (JInt (if neg then - int (digits_val ipart) else int (digits_val ipart)), s4)
                   else Some (JFloat ((if neg then ''-'' else []) @ ipart @ frac @ ex), s4)))"

text \<open>
  The scanner. \<open>scan_once\<close> reads one value; \<open>object_members\<close> reads the members of an
  object from the first character of a key (after its opening quote), with the pairs read
  so far; \<open>array_elements\<close> reads the elements of an array from the first character of an
  element. A repeated key keeps its first position and its last value, as
  \<^verbatim>\<open>dict(pairs)\<close> does. The first argument bounds the number of nested calls: a call
  on an input of length \<open>l\<close> needs at most \<open>2 * l + 2\<close> of them.
\<close>

fun scan_once :: "nat \<Rightarrow> string \<Rightarrow> error + (json \<times> string)"
and object_members :: "nat \<Rightarrow> pydict \<Rightarrow> string \<Rightarrow> error + (json \<times> string)"
and array_elements :: "nat \<Rightarrow> json list \<Rightarrow> string \<Rightarrow> error + (json \<times> string)"
where
  "scan_once 0 s = Inl OutOfFuel"
| "scan_once (Suc n) s =
     (case s of
        [] \<Rightarrow> Inl JSONDecodeError
      | c # cs \<Rightarrow>
          if c = CHR 0x22 then
            (case scanstring cs of
               Inl e \<Rightarrow> Inl e
             | Inr (str, rest) \<Rightarrow> Inr (JStr str, rest))
          else if c = CHR ''{'' then
            (case skip_ws cs of
               [] \<Rightarrow> Inl JSONDecodeError
             | q # r \<Rightarrow>
                 if q = CHR ''}'' then Inr (JObj [], r)
                 else if q = CHR 0x22 then object_members n [] r
                 else Inl JSONDecodeError)
          else if c = CHR ''['' then
            (case skip_ws cs of
               [] \<Rightarrow> Inl JSONDecodeError
             | q # r \<Rightarrow>
                 if q = CHR '']'' then Inr (JArr [], r)
                 else array_elements n [] (q # r))
          else if prefix ''null'' s then Inr (JNull, drop 4 s)
          else if prefix ''true'' s then Inr (JBool True, drop 4 s)
          else if prefix ''false'' s then Inr (JBool False, drop 5 s)
          else
            (case match_number s of
               Some res \<Rightarrow> Inr res
             | None \<Rightarrow>
                 if prefix ''NaN'' s then Inr (JFloat ''NaN'', drop 3 s)
                 else if prefix ''Infinity'' s then Inr (JFloat ''Infinity'', drop 8 s)
                 else if prefix ''-Infinity'' s then Inr (JFloat ''-Infinity'', drop 9 s)
                 else Inl JSONDecodeError))"
| "object_members 0 pairs s = Inl OutOfFuel"
| "object_members (Suc n) pairs s =
     (case scanstring s of
        Inl e \<Rightarrow> Inl e
      | Inr (key, r) \<Rightarrow>
          (case skip_ws r of
             [] \<Rightarrow> Inl JSONDecodeError
           | colon # r1 \<Rightarrow>
               if colon \<noteq> CHR '':'' then Inl JSONDecodeError
               else
                 (case scan_once n (skip_ws r1) of
                    Inl e \<Rightarrow> Inl e
                  | Inr (v, r2) \<Rightarrow>
                      (case skip_ws r2 of
                         [] \<Rightarrow> Inl JSONDecodeError
                       | d # r3 \<Rightarrow>
                           if d = CHR ''}'' then Inr (JObj (dict_set pairs key v), r3)
                           else if d = CHR '','' then
                             (case skip_ws r3 of
                                [] \<Rightarrow> Inl JSONDecodeError
                              | q # r4 \<Rightarrow>
                                  if q = CHR 0x22 then object_members n (dict_set pairs key v) r4
                                  else Inl JSONDecodeError)
                           else Inl JSONDecodeError))))"
| "array_elements 0 vals s = Inl OutOfFuel"
| "array_elements (Suc n) vals s =
     (case scan_once n s of
        Inl e \<Rightarrow> Inl e
      | Inr (v, r) \<Rightarrow>
          (case skip_ws r of
             [] \<Rightarrow> Inl JSONDecodeError
           | d # r1 \<Rightarrow>
               if d = CHR '']'' then Inr (JArr (vals @ [v]), r1)
               else if d = CHR '','' then array_elements n (vals @ [v]) (skip_ws r1)
               else Inl JSONDecodeError))"

text \<open>
  \<^verbatim>\<open>json.loads(s)\<close>: a leading byte order mark is refused, white space around the value
  is skipped, and anything else after the value is an error (\<^verbatim>\<open>Extra data\<close>).
\<close>

definition json_loads :: "string \<Rightarrow> error + json" where
  "json_loads s =
     (if prefix [CHR 0xEF, CHR 0xBB, CHR 0xBF] s then Inl JSONDecodeError
      else
        (case scan_once (Suc (2 * length s)) (skip_ws s) of
           Inl e \<Rightarrow> Inl e
         | Inr (v, rest) \<Rightarrow> if skip_ws rest = [] then Inr v else Inl JSONDecodeError))"

text \<open>Lines 161 to 164: the decoder on the brace slice of the raw answer.\<close>

definition parse_response :: "string \<Rightarrow> error + json" where
  "parse_response raw = json_loads (brace_slice raw)"

section \<open>The encoder \<^verbatim>\<open>json.dumps(schema, indent=2)\<close>\<close>

text \<open>
  Also of the standard library (\<^verbatim>\<open>json/encoder.py\<close>), modelled for the call that the
  prompt makes: \<^verbatim>\<open>ensure_ascii\<close> is on, the item separator is a comma followed by a
  line break and the indentation, the key separator is a colon and a space. A float is
  written as its lexeme.
\<close>

text \<open>The code points of a UTF-8 byte sequence.\<close>

fun utf8_decode :: "string \<Rightarrow> nat list" where
  "utf8_decode [] = []"
| "utf8_decode (c # cs) =
     (let n = (of_char c :: nat) in
      if 0xF0 \<le> n then
        (case cs of
           a # b # d # r \<Rightarrow>
             ((n - 0xF0) * 262144 + (of_char a - 0x80) * 4096 + (of_char b - 0x80) * 64
                + (of_char d - 0x80)) # utf8_decode r
         | _ \<Rightarrow> n # utf8_decode cs)
      else if 0xE0 \<le> n then
        (case cs of
           a # b # r \<Rightarrow>
             ((n - 0xE0) * 4096 + (of_char a - 0x80) * 64 + (of_char b - 0x80)) # utf8_decode r
         | _ \<Rightarrow> n # utf8_decode cs)
      else if 0xC0 \<le> n then
        (case cs of
           a # r \<Rightarrow> ((n - 0xC0) * 64 + (of_char a - 0x80)) # utf8_decode r
         | _ \<Rightarrow> n # utf8_decode cs)
      else n # utf8_decode cs)"

definition hex_digit :: "nat \<Rightarrow> char" where
  "hex_digit d = (if d < 10 then char_of (48 + d) else char_of (87 + d))"

definition u_escape :: "nat \<Rightarrow> string" where
  "u_escape n =
     [CHR 0x5C, CHR ''u'', hex_digit (n div 4096 mod 16), hex_digit (n div 256 mod 16),
      hex_digit (n div 16 mod 16), hex_digit (n mod 16)]"

definition escape_codepoint :: "nat \<Rightarrow> string" where
  "escape_codepoint n =
     (if n = 0x22 then [CHR 0x5C, CHR 0x22]
      else if n = 0x5C then [CHR 0x5C, CHR 0x5C]
      else if n = 0x0A then [CHR 0x5C, CHR ''n'']
      else if n = 0x0D then [CHR 0x5C, CHR ''r'']
      else if n = 0x09 then [CHR 0x5C, CHR ''t'']
      else if n = 0x08 then [CHR 0x5C, CHR ''b'']
      else if n = 0x0C then [CHR 0x5C, CHR ''f'']
      else if 0x20 \<le> n \<and> n \<le> 0x7E then [char_of n]
      else if n < 0x10000 then u_escape n
      else u_escape (0xD800 + (n - 0x10000) div 1024 mod 1024)
             @ u_escape (0xDC00 + (n - 0x10000) mod 1024))"

definition encode_string :: "string \<Rightarrow> string" where
  "encode_string s = [CHR 0x22] @ concat (map escape_codepoint (utf8_decode s)) @ [CHR 0x22]"

fun decimal :: "nat \<Rightarrow> string" where
  "decimal n = (if n < 10 then [char_of (48 + n)] else decimal (n div 10) @ [char_of (48 + n mod 10)])"

definition newline_indent :: "nat \<Rightarrow> string" where
  "newline_indent level = CHR 0x0A # replicate (2 * level) (CHR '' '')"

fun join :: "string \<Rightarrow> string list \<Rightarrow> string" where
  "join sep [] = []"
| "join sep [x] = x"
| "join sep (x # y # ys) = x @ sep @ join sep (y # ys)"

fun iterencode :: "nat \<Rightarrow> json \<Rightarrow> string" where
  "iterencode level JNull = ''null''"
| "iterencode level (JBool b) = (if b then ''true'' else ''false'')"
| "iterencode level (JInt i) = (if i < 0 then ''-'' @ decimal (nat (- i)) else decimal (nat i))"
| "iterencode level (JFloat lexeme) = lexeme"
| "iterencode level (JStr s) = encode_string s"
| "iterencode level (JArr xs) =
     (if xs = [] then ''[]''
      else ''['' @ newline_indent (Suc level)
             @ join ('','' @ newline_indent (Suc level)) (map (iterencode (Suc level)) xs)
             @ newline_indent level @ '']'')"
| "iterencode level (JObj d) =
     (if d = [] then ''{}''
      else ''{'' @ newline_indent (Suc level)
             @ join ('','' @ newline_indent (Suc level))
                 (map (\<lambda>(k, v). encode_string k @ '': '' @ iterencode (Suc level) v) d)
             @ newline_indent level @ ''}'')"

definition json_dumps_indent2 :: "json \<Rightarrow> string" where
  "json_dumps_indent2 obj = iterencode 0 obj"

section \<open>Prompt builder\<close>

text \<open>
  The schema and the instructions of each branch of lines 52 to 127, character by
  character. The en dash and the arrows of the GRN instructions are their UTF-8 bytes.
\<close>

definition po_schema :: json where
  \<open>po_schema =
     JObj
       [(''header'', JObj
           [(''CHAIN'', JStr ''''),
            (''SITE'', JStr ''''),
            (''STATE'', JStr ''''),
            (''Vendor Code'', JStr ''''),
            (''vendor name'', JStr ''''),
            (''po no'', JStr ''''),
            (''po date'', JStr ''''),
            (''DELIVERY DATE'', JStr '''')]),
        (''items'', JArr [JObj
             [(''Material Description'', JStr ''''),
              (''Quantity'', JStr ''''),
              (''total pcs'', JStr ''''),
              (''Base Cost'', JStr ''''),
              (''Total Base Value'', JStr '''')]])]\<close>

definition po_instructions :: string where
  \<open>po_instructions =
     ''\<newline>'' @
     ''- Extract item-wise data exactly as visible\<newline>'' @
     ''- CHAIN is the company name written at the top\<newline>'' @
     ''- Base Cost MUST come only from the column labeled "Base Cost"\<newline>'' @
     ''- Do NOT use MRP\<newline>''\<close>

definition grn_schema :: json where
  \<open>grn_schema =
     JObj
       [(''header'', JObj
           [(''GRN no'', JStr ''''),
            (''GRN Date'', JStr '''')]),
        (''items'', JArr [JObj
             [(''Delivered Qty'', JStr ''''),
              (''Remarks'', JStr '''')]])]\<close>

definition grn_instructions :: string where
  \<open>grn_instructions =
     ''\<newline>'' @
     ''VERY IMPORTANT '' @ [CHR 0xE2, CHR 0x80, CHR 0x93] @ '' FOLLOW EXACTLY:\<newline>'' @
     ''\<newline>'' @
     ''1. Delivered Qty MUST be taken from the column labeled "Accepted Qty / MRP"\<newline>'' @
     ''2. This column has TWO values:\<newline>'' @
     ''   - TOP value = Accepted Quantity '' @ [CHR 0xE2, CHR 0x86, CHR 0x92] @ '' USE THIS AS Delivered Qty\<newline>'' @
     ''   - BOTTOM value = MRP '' @ [CHR 0xE2, CHR 0x86, CHR 0x92] @ '' IGNORE THIS COMPLETELY\<newline>'' @
     ''3. Remarks MUST be taken from the column labeled:\<newline>'' @
     ''   "Reason - Short Description"\<newline>'' @
     ''4. Extract ONE item per table row\<newline>'' @
     ''5. Do NOT use Challan Qty\<newline>'' @
     ''6. Do NOT use Received Qty\<newline>'' @
     ''7. Do NOT use totals\<newline>''\<close>

definition mrn_schema :: json where
  \<open>mrn_schema =
     JObj
       [(''header'', JObj
           [(''MRN no'', JStr '''')]),
        (''items'', JArr [JObj
             [(''Rejected Amount'', JStr '''')]])]\<close>

definition mrn_instructions :: string where
  \<open>mrn_instructions =
     ''\<newline>'' @
     ''- Extract Rejected Amount from MRN item table\<newline>'' @
     ''- Use the Total Amount for the rejected material\<newline>'' @
     ''- Do NOT infer or calculate values\<newline>''\<close>

text \<open>
  The dispatch \<^verbatim>\<open>if pdf_type == "PO": ... elif pdf_type == "GRN": ... else: ...\<close>.
\<close>

definition select_schema :: "string \<Rightarrow> json \<times> string" where
  "select_schema pdf_type =
     (if pdf_type = ''PO'' then (po_schema, po_instructions)
      else if pdf_type = ''GRN'' then (grn_schema, grn_instructions)
      else (mrn_schema, mrn_instructions))"

text \<open>The f-string of lines 129 to 144.\<close>

definition build_prompt :: "string \<Rightarrow> string \<Rightarrow> string" where
  \<open>build_prompt pdf_text pdf_type =
     (let (schema, instructions) = select_schema pdf_type in
      ''\<newline>You are an expert at reading Indian '' @ pdf_type @ '' PDFs.\<newline>\<newline>'' @
      instructions @
      ''\<newline>\<newline>Extract data EXACTLY as per the schema.\<newline>Return STRICT JSON ONLY.\<newline>\<newline>Schema:\<newline>'' @
      json_dumps_indent2 schema @
      ''\<newline>\<newline>PDF Text:\<newline><<<\<newline>'' @
      pdf_text @
      ''\<newline>>>>\<newline>'')\<close>

section \<open>The processing flow\<close>

text \<open>
  What a run does to the outside world, in order: messages and widgets shown, uploads
  saved under the temporary directory, PDFs opened, requests sent to the inference
  service, the spreadsheet written.
\<close>

datatype event =
    ShowError string
  | SaveUpload string pdf
  | ReadPdf string
  | Chat string
  | ShowSuccess string
  | ShowTable "pydict list"
  | WriteExcel "pydict list"
  | OfferDownload string

text \<open>
  How a run ends: the button was not pressed, \<^verbatim>\<open>st.stop()\<close> ended it, an exception
  ended it, or it reached the download button with the merged rows.
\<close>

datatype outcome =
    NotTriggered
  | Stopped
  | Raised error
  | Completed "pydict list"

text \<open>
  \<^verbatim>\<open>extract_structured_data\<close>, lines 50 to 164. The inference service is a parameter:
  from the prompt to the text of its answer, or the exception of the call.
\<close>

definition extract_structured_data ::
  "(string \<Rightarrow> error + string) \<Rightarrow> string \<Rightarrow> string \<Rightarrow> event list \<times> (error + json)"
where
  "extract_structured_data client_chat pdf_text pdf_type =
     (let prompt = build_prompt pdf_text pdf_type in
      ([Chat prompt],
       case client_chat prompt of
         Inl e \<Rightarrow> Inl e
       | Inr raw \<Rightarrow> parse_response raw))"

text \<open>One document: \<^verbatim>\<open>extract_pdf_text(path)\<close>, then \<^verbatim>\<open>extract_structured_data\<close>.\<close>

definition process_document ::
  "(string \<Rightarrow> error + string) \<Rightarrow> string \<Rightarrow> pdf \<Rightarrow> string \<Rightarrow> event list \<times> (error + json)"
where
  "process_document client_chat path file pdf_type =
     (let text = extract_pdf_text file;
          (evs, res) = extract_structured_data client_chat text pdf_type
      in (ReadPdf path # evs, res))"

text \<open>Lines 179 to 249: the body of the run once the three uploads are there.\<close>

definition run_pipeline ::
  "(string \<Rightarrow> error + string) \<Rightarrow> pdf \<Rightarrow> pdf \<Rightarrow> pdf \<Rightarrow> event list \<times> outcome"
where
  \<open>run_pipeline client_chat po_file grn_file mrn_file =
     (let ev0 = [SaveUpload ''po.pdf'' po_file, SaveUpload ''grn.pdf'' grn_file,
                 SaveUpload ''mrn.pdf'' mrn_file];
          (ev1, r1) = process_document client_chat ''po.pdf'' po_file ''PO''
      in case r1 of
           Inl e \<Rightarrow> (ev0 @ ev1, Raised e)
         | Inr po_data \<Rightarrow>
      (case po_rows po_data of
           Inl e \<Rightarrow> (ev0 @ ev1, Raised e)
         | Inr rows \<Rightarrow>
      (let (ev2, r2) = process_document client_chat ''grn.pdf'' grn_file ''GRN''
       in case r2 of
           Inl e \<Rightarrow> (ev0 @ ev1 @ ev2, Raised e)
         | Inr grn_data \<Rightarrow>
      (case overlay_grn rows grn_data of
           Inl e \<Rightarrow> (ev0 @ ev1 @ ev2, Raised e)
         | Inr rows1 \<Rightarrow>
      (let (ev3, r3) = process_document client_chat ''mrn.pdf'' mrn_file ''MRN''
       in case r3 of
           Inl e \<Rightarrow> (ev0 @ ev1 @ ev2 @ ev3, Raised e)
         | Inr mrn_data \<Rightarrow>
      (case overlay_mrn rows1 mrn_data of
           Inl e \<Rightarrow> (ev0 @ ev1 @ ev2 @ ev3, Raised e)
         | Inr rows2 \<Rightarrow>
             (ev0 @ ev1 @ ev2 @ ev3 @
                [ShowSuccess ([CHR 0xE2, CHR 0x9C, CHR 0x85] @ '' Extraction Completed''),
                 ShowTable rows2, WriteExcel rows2,
                 OfferDownload ''Reliance_PO_GRN_MRN_Extracted.xlsx''],
              Completed rows2)))))))\<close>

text \<open>
  Lines 173 to 177: the button and the guard. An upload widget holds \<^verbatim>\<open>None\<close> until a
  file is chosen, and an uploaded file is never falsy.
\<close>

definition process_pdfs ::
  "(string \<Rightarrow> error + string) \<Rightarrow> bool \<Rightarrow> pdf option \<Rightarrow> pdf option \<Rightarrow> pdf option
     \<Rightarrow> event list \<times> outcome"
where
  "process_pdfs client_chat clicked po_file grn_file mrn_file =
     (if \<not> clicked then ([], NotTriggered)
      else
        (case (po_file, grn_file, mrn_file) of
           (Some po, Some grn, Some mrn) \<Rightarrow> run_pipeline client_chat po grn mrn
         | _ \<Rightarrow> ([ShowError ''Please upload PO, GRN and MRN PDFs''], Stopped)))"

section \<open>Vocabulary of the properties\<close>

text \<open>The keys that the GRN loop and the MRN loop assign (lines 219 to 222, 230 and 231).\<close>

definition grn_fields :: "string set" where
  "grn_fields = {''GRN no'', ''GRN Date'', ''Delivered Qty'', ''Remarks''}"

definition mrn_fields :: "string set" where
  "mrn_fields = {''MRN no'', ''Rejected Amount''}"

text \<open>
  Three extraction results to run the program on: one PO line, one GRN line, one MRN line.
\<close>

definition ex_po :: json where
  "ex_po =
     JObj [(''header'', JObj [(''po no'', JStr ''100'')]),
           (''items'', JArr [JObj [(''Material Description'', JStr ''Widget''),
                                   (''Quantity'', JStr ''5'')]])]"

definition ex_grn :: json where
  "ex_grn =
     JObj [(''header'', JObj [(''GRN no'', JStr ''G1''), (''GRN Date'', JStr ''2024-01-01'')]),
           (''items'', JArr [JObj [(''Delivered Qty'', JStr ''5''), (''Remarks'', JStr ''OK'')]])]"

definition ex_mrn :: json where
  "ex_mrn =
     JObj [(''header'', JObj [(''MRN no'', JStr ''M1'')]),
           (''items'', JArr [JObj [(''Rejected Amount'', JStr ''0'')]])]"

text \<open>Two merged rows, the second without any GRN or MRN key.\<close>

definition ex_rows :: "pydict list" where
  "ex_rows =
     [[(''po no'', JStr ''100''), (''GRN no'', JStr ''''), (''MRN no'', JStr '''')],
      [(''po no'', JStr ''101'')]]"

text \<open>What \<^verbatim>\<open>item.get(k, "")\<close> returns on a dict.\<close>

definition field_or_empty :: "pydict \<Rightarrow> string \<Rightarrow> json" where
  "field_or_empty item k = (case map_of item k of None \<Rightarrow> JStr '''' | Some v \<Rightarrow> v)"

text \<open>
  The row of the first loop for a PO header and a PO item that are dicts, and the rows that
  the bodies of the GRN and MRN loops leave when header and item are dicts.
\<close>

definition base_row :: "pydict \<Rightarrow> pydict \<Rightarrow> pydict" where
  "base_row ph it = dict_update (dict_update (dict_update [] ph) it) placeholders"

definition grn_written :: "pydict \<Rightarrow> json \<Rightarrow> json \<Rightarrow> pydict \<Rightarrow> pydict" where
  "grn_written row no date it =
     dict_set (dict_set (dict_set (dict_set row ''GRN no'' no) ''GRN Date'' date)
       ''Delivered Qty'' (field_or_empty it ''Delivered Qty''))
       ''Remarks'' (field_or_empty it ''Remarks'')"

definition mrn_written :: "pydict \<Rightarrow> json \<Rightarrow> pydict \<Rightarrow> pydict" where
  "mrn_written row no it =
     dict_set (dict_set row ''MRN no'' no)
       ''Rejected Amount'' (field_or_empty it ''Rejected Amount'')"

text \<open>
  More extraction results: a PO with three items, a GRN with two (the second without
  Remarks), an MRN with four (the second without Rejected Amount); a PO without items; a
  GRN and an MRN whose items are empty dicts; a GRN header without GRN Date and an MRN
  header without MRN no; and a document without items.
\<close>

definition ex3_po :: json where
  "ex3_po =
     JObj [(''header'', JObj [(''po no'', JStr ''7'')]),
           (''items'', JArr [JObj [(''Quantity'', JStr ''1'')], JObj [(''Quantity'', JStr ''2'')],
                             JObj [(''Quantity'', JStr ''3'')]])]"

definition ex2_grn :: json where
  "ex2_grn =
     JObj [(''header'', JObj [(''GRN no'', JStr ''G''), (''GRN Date'', JStr ''D'')]),
           (''items'', JArr [JObj [(''Delivered Qty'', JStr ''1''), (''Remarks'', JStr ''a'')],
                             JObj [(''Delivered Qty'', JStr ''2'')]])]"

definition ex4_mrn :: json where
  "ex4_mrn =
     JObj [(''header'', JObj [(''MRN no'', JStr ''M'')]),
           (''items'', JArr [JObj [(''Rejected Amount'', JStr ''10'')], JObj [],
                             JObj [(''Rejected Amount'', JStr ''30'')],
                             JObj [(''Rejected Amount'', JStr ''40'')]])]"

definition ex_po_empty :: json where
  "ex_po_empty = JObj [(''header'', JObj [(''po no'', JStr ''100'')]), (''items'', JArr [])]"

definition ex_grn_sparse :: json where
  "ex_grn_sparse =
     JObj [(''header'', JObj [(''GRN no'', JStr ''G1''), (''GRN Date'', JStr ''2024-01-01'')]),
           (''items'', JArr [JObj []])]"

definition ex_mrn_sparse :: json where
  "ex_mrn_sparse = JObj [(''header'', JObj [(''MRN no'', JStr ''M1'')]), (''items'', JArr [JObj []])]"

definition ex_grn_no_date :: json where
  "ex_grn_no_date =
     JObj [(''header'', JObj [(''GRN no'', JStr ''G1'')]),
           (''items'', JArr [JObj [(''Delivered Qty'', JStr ''5'')]])]"

definition ex_mrn_no_number :: json where
  "ex_mrn_no_number =
     JObj [(''header'', JObj []), (''items'', JArr [JObj [(''Rejected Amount'', JStr ''0'')]])]"

definition ex_no_items :: json where
  "ex_no_items = JObj [(''items'', JArr [])]"

text \<open>A GRN result of the shape of the data model whose header holds no key at all.\<close>

definition ex_grn_no_keys :: json where
  "ex_grn_no_keys = JObj [(''header'', JObj []), (''items'', JArr [JObj []])]"

text \<open>The single row that the first loop builds from \<open>ex_po\<close>.\<close>

definition ex_po_rows :: "pydict list" where
  "ex_po_rows =
     [[(''po no'', JStr ''100''), (''Material Description'', JStr ''Widget''),
       (''Quantity'', JStr ''5''), (''GRN no'', JStr ''''), (''GRN Date'', JStr ''''),
       (''Delivered Qty'', JStr ''''), (''Remarks'', JStr ''''), (''MRN no'', JStr ''''),
       (''Rejected Amount'', JStr '''')]]"

text \<open>The texts of the pages that yield text (\<^verbatim>\<open>if txt:\<close> holds), in page order.\<close>

fun yielded_texts :: "pdf \<Rightarrow> string list" where
  "yielded_texts [] = []"
| "yielded_texts (None # pages) = yielded_texts pages"
| "yielded_texts (Some txt # pages) =
     (if txt \<noteq> [] then txt # yielded_texts pages else yielded_texts pages)"

text \<open>
  The field names of a schema: the keys of its header and the keys of its item
  templates.
\<close>

definition field_names :: "json \<Rightarrow> string list" where
  "field_names schema =
     (case getitem schema ''header'' of
        Inr (JObj h) \<Rightarrow> map fst h
      | _ \<Rightarrow> []) @
     (case iter_items schema of
        Inr its \<Rightarrow> concat (map (\<lambda>it. case it of JObj d \<Rightarrow> map fst d | _ \<Rightarrow> []) its)
      | _ \<Rightarrow> [])"

section \<open>Properties of the merge engine\<close>

subsection \<open>Dictionaries\<close>

lemma map_of_dict_set: "map_of (dict_set d k v) = (map_of d)(k \<mapsto> v)"
  by (induction d) (auto simp: fun_eq_iff)

lemma filter_dict_set:
  "k \<in> K \<Longrightarrow> filter (\<lambda>p. fst p \<notin> K) (dict_set d k v) = filter (\<lambda>p. fst p \<notin> K) d"
  by (induction d) auto

lemma map_of_filter_keys:
  "k \<notin> K \<Longrightarrow> map_of (filter (\<lambda>p. fst p \<notin> K) d) k = map_of d k"
  by (induction d) auto

subsection \<open>The row-building loop\<close>

lemma length_build_rows: "build_rows h items = Inr rows \<Longrightarrow> length rows = length items"
  by (induction items arbitrary: rows) (auto split: sum.splits)

lemma build_rows_nth:
  "build_rows h items = Inr rows \<Longrightarrow> i < length items \<Longrightarrow>
   make_row h (items ! i) = Inr (rows ! i)"
  by (induction items arbitrary: rows i) (auto split: sum.splits simp: nth_Cons split: nat.splits)

lemma build_rows_mappings:
  "build_rows (JObj h) (map JObj its) =
     Inr (map (\<lambda>it. dict_update (dict_update (dict_update [] h) it) placeholders) its)"
  by (induction its) (simp_all add: make_row_def)

subsection \<open>The overlay loop\<close>

lemma length_overlay_loop:
  "overlay_loop body i rows items = Inr rows' \<Longrightarrow> length rows' = length rows"
  by (induction body i rows items rule: overlay_loop.induct)
     (auto split: if_splits sum.splits)

lemma overlay_loop_nth:
  "overlay_loop body i rows items = Inr rows' \<Longrightarrow> j < length rows \<Longrightarrow>
   (if i \<le> j \<and> j < i + length items
    then body (rows ! j) (items ! (j - i)) = Inr (rows' ! j)
    else rows' ! j = rows ! j)"
proof (induction body i rows items arbitrary: rows' rule: overlay_loop.induct)
  case (1 body i rows)
  then show ?case by auto
next
  case (2 body i rows item items)
  show ?case
  proof (cases "i < length rows")
    case False
    with 2(2)[OF False] 2(3,4) show ?thesis by (auto split: if_splits)
  next
    case True
    from True 2(3) obtain r where r: "body (rows ! i) item = Inr r"
      and rec: "overlay_loop body (Suc i) (rows[i := r]) items = Inr rows'"
      by (auto split: sum.splits)
    from 2(1)[OF True r rec] 2(4)
    have ih: "(if Suc i \<le> j \<and> j < Suc i + length items
          then body (rows[i := r] ! j) (items ! (j - Suc i)) = Inr (rows' ! j)
          else rows' ! j = rows[i := r] ! j)" by simp
    show ?thesis
    proof (cases "j = i")
      case True
      with ih \<open>i < length rows\<close> r show ?thesis by simp
    next
      case False
      with ih show ?thesis by (auto simp: nth_Cons' Suc_diff_Suc split: if_splits)
    qed
  qed
qed

lemma overlay_loop_total:
  "(\<And>j. i \<le> j \<Longrightarrow> j < length rows \<Longrightarrow> j < i + length items \<Longrightarrow>
       \<exists>r. body (rows ! j) (items ! (j - i)) = Inr r) \<Longrightarrow>
   \<exists>rows'. overlay_loop body i rows items = Inr rows'"
proof (induction body i rows items rule: overlay_loop.induct)
  case (1 body i rows)
  then show ?case by simp
next
  case (2 body i rows item items)
  show ?case
  proof (cases "i < length rows")
    case False
    have "\<exists>rows'. overlay_loop body (Suc i) rows items = Inr rows'"
    proof (rule 2(2)[OF False])
      fix j assume "Suc i \<le> j" "j < length rows" "j < Suc i + length items"
      with False show "\<exists>r. body (rows ! j) (items ! (j - Suc i)) = Inr r" by simp
    qed
    with False show ?thesis by simp
  next
    case True
    from 2(3)[of i] True obtain r where r: "body (rows ! i) item = Inr r" by auto
    have "\<exists>rows'. overlay_loop body (Suc i) (rows[i := r]) items = Inr rows'"
    proof (rule 2(1)[OF True r])
      fix j assume j: "Suc i \<le> j" "j < length (rows[i := r])" "j < Suc i + length items"
      then have ji: "j - i = Suc (j - Suc i)" by arith
      have eq: "(item # items) ! (j - i) = items ! (j - Suc i)"
        unfolding ji by (rule nth_Cons_Suc)
      from j have "i \<le> j" "j < length rows" "j < i + length (item # items)" by simp_all
      from 2(3)[OF this] obtain r' where "body (rows ! j) ((item # items) ! (j - i)) = Inr r'" ..
      moreover from j have "rows[i := r] ! j = rows ! j" by simp
      ultimately show "\<exists>ra. body (rows[i := r] ! j) (items ! (j - Suc i)) = Inr ra"
        unfolding eq by (intro exI[of _ r']) (simp only:)
    qed
    with True r show ?thesis by simp
  qed
qed

lemma overlay_loop_first_fails:
  "rows \<noteq> [] \<Longrightarrow> items \<noteq> [] \<Longrightarrow> (\<And>row item. body row item = Inl e) \<Longrightarrow>
   overlay_loop body 0 rows items = Inl e"
  by (cases items) auto

lemma overlay_loop_no_overlap:
  "items = [] \<or> length rows \<le> i \<Longrightarrow> overlay_loop body i rows items = Inr rows"
  by (induction body i rows items rule: overlay_loop.induct) auto

lemma overlay_loop_take:
  "overlay_loop body i rows items = overlay_loop body i rows (take (length rows - i) items)"
proof (induction body i rows items rule: overlay_loop.induct)
  case (1 body i rows)
  then show ?case by simp
next
  case (2 body i rows item items)
  show ?case
  proof (cases "i < length rows")
    case False
    then show ?thesis by (simp add: overlay_loop_no_overlap)
  next
    case True
    then obtain m where m: "length rows - i = Suc m" "length rows - Suc i = m"
      by (metis Suc_diff_Suc)
    show ?thesis
    proof (cases "body (rows ! i) item")
      case (Inl e)
      with True m show ?thesis by simp
    next
      case (Inr r)
      from 2(1)[OF True Inr] True m Inr show ?thesis by simp
    qed
  qed
qed

subsection \<open>The loop bodies\<close>

lemma grn_body_Inr:
  "grn_body g row item = Inr row' \<Longrightarrow>
   \<exists>h no date qty rem.
     getitem g ''header'' = Inr h \<and> getitem h ''GRN no'' = Inr no \<and>
     getitem h ''GRN Date'' = Inr date \<and>
     py_get item ''Delivered Qty'' (JStr '''') = Inr qty \<and>
     py_get item ''Remarks'' (JStr '''') = Inr rem \<and>
     row' = dict_set (dict_set (dict_set (dict_set row ''GRN no'' no) ''GRN Date'' date)
              ''Delivered Qty'' qty) ''Remarks'' rem"
  by (auto simp: grn_body_def split: sum.splits)

lemma mrn_body_Inr:
  "mrn_body m row item = Inr row' \<Longrightarrow>
   \<exists>h no amount.
     getitem m ''header'' = Inr h \<and> getitem h ''MRN no'' = Inr no \<and>
     py_get item ''Rejected Amount'' (JStr '''') = Inr amount \<and>
     row' = dict_set (dict_set row ''MRN no'' no) ''Rejected Amount'' amount"
  by (auto simp: mrn_body_def split: sum.splits)

lemma grn_body_frame:
  assumes "grn_body g row item = Inr row'"
  shows "filter (\<lambda>p. fst p \<notin> grn_fields) row' = filter (\<lambda>p. fst p \<notin> grn_fields) row"
proof -
  from grn_body_Inr[OF assms] obtain no date qty rem where
    "row' = dict_set (dict_set (dict_set (dict_set row ''GRN no'' no) ''GRN Date'' date)
              ''Delivered Qty'' qty) ''Remarks'' rem" by blast
  moreover have "''GRN no'' \<in> grn_fields" "''GRN Date'' \<in> grn_fields"
    "''Delivered Qty'' \<in> grn_fields" "''Remarks'' \<in> grn_fields"
    by (simp_all add: grn_fields_def)
  ultimately show ?thesis by (simp only: filter_dict_set)
qed

lemma mrn_body_frame:
  assumes "mrn_body m row item = Inr row'"
  shows "filter (\<lambda>p. fst p \<notin> mrn_fields) row' = filter (\<lambda>p. fst p \<notin> mrn_fields) row"
proof -
  from mrn_body_Inr[OF assms] obtain no amount where
    "row' = dict_set (dict_set row ''MRN no'' no) ''Rejected Amount'' amount" by blast
  moreover have "''MRN no'' \<in> mrn_fields" "''Rejected Amount'' \<in> mrn_fields"
    by (simp_all add: mrn_fields_def)
  ultimately show ?thesis by (simp only: filter_dict_set)
qed

lemma overlay_loop_frame:
  assumes loop: "overlay_loop body 0 rows items = Inr rows'"
    and body: "\<And>row item row'. body row item = Inr row' \<Longrightarrow>
                 filter (\<lambda>p. fst p \<notin> K) row' = filter (\<lambda>p. fst p \<notin> K) row"
    and i: "i < length rows"
  shows "filter (\<lambda>p. fst p \<notin> K) (rows' ! i) = filter (\<lambda>p. fst p \<notin> K) (rows ! i)"
proof (cases "i < length items")
  case True
  with overlay_loop_nth[OF loop i] have "body (rows ! i) (items ! i) = Inr (rows' ! i)" by simp
  then show ?thesis by (rule body)
next
  case False
  with overlay_loop_nth[OF loop i] show ?thesis by simp
qed

lemma overlay_grn_loop_frame:
  assumes loop: "overlay_loop (grn_body g) 0 rows items = Inr rows'" and i: "i < length rows"
  shows "filter (\<lambda>p. fst p \<notin> grn_fields) (rows' ! i)
           = filter (\<lambda>p. fst p \<notin> grn_fields) (rows ! i)"
  using loop
proof (rule overlay_loop_frame)
  fix row item row' assume "grn_body g row item = Inr row'"
  then show "filter (\<lambda>p. fst p \<notin> grn_fields) row' = filter (\<lambda>p. fst p \<notin> grn_fields) row"
    by (rule grn_body_frame)
qed (rule i)

lemma overlay_mrn_loop_frame:
  assumes loop: "overlay_loop (mrn_body m) 0 rows items = Inr rows'" and i: "i < length rows"
  shows "filter (\<lambda>p. fst p \<notin> mrn_fields) (rows' ! i)
           = filter (\<lambda>p. fst p \<notin> mrn_fields) (rows ! i)"
  using loop
proof (rule overlay_loop_frame)
  fix row item row' assume "mrn_body m row item = Inr row'"
  then show "filter (\<lambda>p. fst p \<notin> mrn_fields) row' = filter (\<lambda>p. fst p \<notin> mrn_fields) row"
    by (rule mrn_body_frame)
qed (rule i)

lemma overlay_loop_beyond:
  "overlay_loop body 0 rows items = Inr rows' \<Longrightarrow> i < length rows \<Longrightarrow>
   length items \<le> i \<Longrightarrow> rows' ! i = rows ! i"
  using overlay_loop_nth[of body 0 rows items rows' i] by simp

lemma overlay_grn_Inr:
  "overlay_grn rows g = Inr rows' \<Longrightarrow>
   \<exists>items. iter_items g = Inr items \<and> overlay_loop (grn_body g) 0 rows items = Inr rows'"
  by (auto simp: overlay_grn_def split: sum.splits)

lemma overlay_mrn_Inr:
  "overlay_mrn rows m = Inr rows' \<Longrightarrow>
   \<exists>items. iter_items m = Inr items \<and> overlay_loop (mrn_body m) 0 rows items = Inr rows'"
  by (auto simp: overlay_mrn_def split: sum.splits)

lemma values_of_frame:
  assumes "filter (\<lambda>p. fst p \<notin> K) d' = filter (\<lambda>p. fst p \<notin> K) d" and "k \<notin> K"
  shows "map_of d' k = map_of d k"
proof -
  have "map_of d' k = map_of (filter (\<lambda>p. fst p \<notin> K) d') k"
    by (rule map_of_filter_keys[OF assms(2), symmetric])
  also have "\<dots> = map_of (filter (\<lambda>p. fst p \<notin> K) d) k" by (simp only: assms(1))
  also have "\<dots> = map_of d k" by (rule map_of_filter_keys[OF assms(2)])
  finally show ?thesis .
qed

subsection \<open>The loop bodies on dicts\<close>

lemma py_get_mapping: "py_get (JObj d) k (JStr '''') = Inr (field_or_empty d k)"
  by (simp add: field_or_empty_def)

lemma getitem_mapping: "map_of h k = Some v \<Longrightarrow> getitem (JObj h) k = Inr v"
  by simp

lemma getitem_missing: "map_of h k = None \<Longrightarrow> getitem (JObj h) k = Inl (KeyError k)"
  by simp

lemma grn_body_ok:
  assumes "getitem g ''header'' = Inr (JObj gh)"
    and "map_of gh ''GRN no'' = Some no" and "map_of gh ''GRN Date'' = Some date"
  shows "grn_body g row (JObj it) =
     Inr (dict_set (dict_set (dict_set (dict_set row ''GRN no'' no) ''GRN Date'' date)
            ''Delivered Qty'' (field_or_empty it ''Delivered Qty''))
            ''Remarks'' (field_or_empty it ''Remarks''))"
  using assms by (simp add: grn_body_def field_or_empty_def)

lemma mrn_body_ok:
  assumes "getitem m ''header'' = Inr (JObj mh)" and "map_of mh ''MRN no'' = Some no"
  shows "mrn_body m row (JObj it) =
     Inr (dict_set (dict_set row ''MRN no'' no)
            ''Rejected Amount'' (field_or_empty it ''Rejected Amount''))"
  using assms by (simp add: mrn_body_def field_or_empty_def)

lemma grn_body_missing_key:
  assumes "getitem g ''header'' = Inr (JObj gh)"
    and "map_of gh ''GRN no'' = None \<or> map_of gh ''GRN Date'' = None"
  shows "grn_body g row item =
     Inl (KeyError (if map_of gh ''GRN no'' = None then ''GRN no'' else ''GRN Date''))"
  using assms by (auto simp: grn_body_def split: option.splits)

lemma mrn_body_missing_key:
  assumes "getitem m ''header'' = Inr (JObj mh)" and "map_of mh ''MRN no'' = None"
  shows "mrn_body m row item = Inl (KeyError ''MRN no'')"
  using assms by (simp add: mrn_body_def)

lemma map_of_placeholders:
  "map_of (dict_update d placeholders) =
     (map_of d)(''GRN no'' \<mapsto> JStr '''', ''GRN Date'' \<mapsto> JStr '''',
       ''Delivered Qty'' \<mapsto> JStr '''', ''Remarks'' \<mapsto> JStr '''',
       ''MRN no'' \<mapsto> JStr '''', ''Rejected Amount'' \<mapsto> JStr '''')"
  by (simp add: dict_update_def placeholders_def map_of_dict_set)

lemma overlay_loop_row:
  "overlay_loop body 0 rows items = Inr rows' \<Longrightarrow> i < length rows \<Longrightarrow> i < length items \<Longrightarrow>
   body (rows ! i) (items ! i) = Inr (rows' ! i)"
  using overlay_loop_nth[of body 0 rows items rows' i] by simp

lemma grn_row_fields:
  assumes "grn_body g row item = Inr row'"
  shows "\<exists>h no date qty rem.
     getitem g ''header'' = Inr h \<and> getitem h ''GRN no'' = Inr no \<and>
     getitem h ''GRN Date'' = Inr date \<and>
     py_get item ''Delivered Qty'' (JStr '''') = Inr qty \<and>
     py_get item ''Remarks'' (JStr '''') = Inr rem \<and>
     map_of row' ''GRN no'' = Some no \<and> map_of row' ''GRN Date'' = Some date \<and>
     map_of row' ''Delivered Qty'' = Some qty \<and> map_of row' ''Remarks'' = Some rem"
proof -
  from grn_body_Inr[OF assms] obtain h no date qty rem where
    h: "getitem g ''header'' = Inr h" "getitem h ''GRN no'' = Inr no"
       "getitem h ''GRN Date'' = Inr date"
       "py_get item ''Delivered Qty'' (JStr '''') = Inr qty"
       "py_get item ''Remarks'' (JStr '''') = Inr rem"
    and r: "row' = dict_set (dict_set (dict_set (dict_set row ''GRN no'' no) ''GRN Date'' date)
              ''Delivered Qty'' qty) ''Remarks'' rem" by blast
  have "map_of row' ''GRN no'' = Some no \<and> map_of row' ''GRN Date'' = Some date \<and>
     map_of row' ''Delivered Qty'' = Some qty \<and> map_of row' ''Remarks'' = Some rem"
    unfolding r by (simp add: map_of_dict_set)
  with h show ?thesis by blast
qed

lemma mrn_row_fields:
  assumes "mrn_body m row item = Inr row'"
  shows "\<exists>h no amount.
     getitem m ''header'' = Inr h \<and> getitem h ''MRN no'' = Inr no \<and>
     py_get item ''Rejected Amount'' (JStr '''') = Inr amount \<and>
     map_of row' ''MRN no'' = Some no \<and> map_of row' ''Rejected Amount'' = Some amount"
proof -
  from mrn_body_Inr[OF assms] obtain h no amount where
    h: "getitem m ''header'' = Inr h" "getitem h ''MRN no'' = Inr no"
       "py_get item ''Rejected Amount'' (JStr '''') = Inr amount"
    and r: "row' = dict_set (dict_set row ''MRN no'' no) ''Rejected Amount'' amount" by blast
  have "map_of row' ''MRN no'' = Some no \<and> map_of row' ''Rejected Amount'' = Some amount"
    unfolding r by (simp add: map_of_dict_set)
  with h show ?thesis by blast
qed

subsection \<open>What the overlays write\<close>

lemma overlay_grn_positional:
  assumes a: "overlay_grn rows grn_data = Inr rows1"
  shows "length rows1 = length rows \<and>
      (\<exists>items. iter_items grn_data = Inr items \<and>
         (\<forall>i<length rows.
            if i < length items then
              (\<exists>h no date qty rem.
                 getitem grn_data ''header'' = Inr h \<and> getitem h ''GRN no'' = Inr no \<and>
                 getitem h ''GRN Date'' = Inr date \<and>
                 py_get (items ! i) ''Delivered Qty'' (JStr '''') = Inr qty \<and>
                 py_get (items ! i) ''Remarks'' (JStr '''') = Inr rem \<and>
                 map_of (rows1 ! i) ''GRN no'' = Some no \<and>
                 map_of (rows1 ! i) ''GRN Date'' = Some date \<and>
                 map_of (rows1 ! i) ''Delivered Qty'' = Some qty \<and>
                 map_of (rows1 ! i) ''Remarks'' = Some rem)
            else rows1 ! i = rows ! i))"
proof -
  from overlay_grn_Inr[OF a] obtain items where it: "iter_items grn_data = Inr items"
    and loop: "overlay_loop (grn_body grn_data) 0 rows items = Inr rows1" by blast
  have len: "length rows1 = length rows" by (rule length_overlay_loop[OF loop])
  have "\<forall>i<length rows.
            if i < length items then
              (\<exists>h no date qty rem.
                 getitem grn_data ''header'' = Inr h \<and> getitem h ''GRN no'' = Inr no \<and>
                 getitem h ''GRN Date'' = Inr date \<and>
                 py_get (items ! i) ''Delivered Qty'' (JStr '''') = Inr qty \<and>
                 py_get (items ! i) ''Remarks'' (JStr '''') = Inr rem \<and>
                 map_of (rows1 ! i) ''GRN no'' = Some no \<and>
                 map_of (rows1 ! i) ''GRN Date'' = Some date \<and>
                 map_of (rows1 ! i) ''Delivered Qty'' = Some qty \<and>
                 map_of (rows1 ! i) ''Remarks'' = Some rem)
            else rows1 ! i = rows ! i"
  proof (intro allI impI)
    fix i assume i: "i < length rows"
    show "if i < length items then
              (\<exists>h no date qty rem.
                 getitem grn_data ''header'' = Inr h \<and> getitem h ''GRN no'' = Inr no \<and>
                 getitem h ''GRN Date'' = Inr date \<and>
                 py_get (items ! i) ''Delivered Qty'' (JStr '''') = Inr qty \<and>
                 py_get (items ! i) ''Remarks'' (JStr '''') = Inr rem \<and>
                 map_of (rows1 ! i) ''GRN no'' = Some no \<and>
                 map_of (rows1 ! i) ''GRN Date'' = Some date \<and>
                 map_of (rows1 ! i) ''Delivered Qty'' = Some qty \<and>
                 map_of (rows1 ! i) ''Remarks'' = Some rem)
            else rows1 ! i = rows ! i"
    proof (cases "i < length items")
      case True
      from grn_row_fields[OF overlay_loop_row[OF loop i True]] True show ?thesis
        by (simp only: if_True)
    next
      case False
      then have "length items \<le> i" by simp
      from overlay_loop_beyond[OF loop i this] False show ?thesis by (simp only: if_False)
    qed
  qed
  with len it show ?thesis by blast
qed

lemma overlay_mrn_positional:
  assumes a: "overlay_mrn rows mrn_data = Inr rows2"
  shows "length rows2 = length rows \<and>
      (\<exists>items. iter_items mrn_data = Inr items \<and>
         (\<forall>i<length rows.
            if i < length items then
              (\<exists>h no amount.
                 getitem mrn_data ''header'' = Inr h \<and> getitem h ''MRN no'' = Inr no \<and>
                 py_get (items ! i) ''Rejected Amount'' (JStr '''') = Inr amount \<and>
                 map_of (rows2 ! i) ''MRN no'' = Some no \<and>
                 map_of (rows2 ! i) ''Rejected Amount'' = Some amount)
            else rows2 ! i = rows ! i))"
proof -
  from overlay_mrn_Inr[OF a] obtain items where it: "iter_items mrn_data = Inr items"
    and loop: "overlay_loop (mrn_body mrn_data) 0 rows items = Inr rows2" by blast
  have len: "length rows2 = length rows" by (rule length_overlay_loop[OF loop])
  have "\<forall>i<length rows.
            if i < length items then
              (\<exists>h no amount.
                 getitem mrn_data ''header'' = Inr h \<and> getitem h ''MRN no'' = Inr no \<and>
                 py_get (items ! i) ''Rejected Amount'' (JStr '''') = Inr amount \<and>
                 map_of (rows2 ! i) ''MRN no'' = Some no \<and>
                 map_of (rows2 ! i) ''Rejected Amount'' = Some amount)
            else rows2 ! i = rows ! i"
  proof (intro allI impI)
    fix i assume i: "i < length rows"
    show "if i < length items then
              (\<exists>h no amount.
                 getitem mrn_data ''header'' = Inr h \<and> getitem h ''MRN no'' = Inr no \<and>
                 py_get (items ! i) ''Rejected Amount'' (JStr '''') = Inr amount \<and>
                 map_of (rows2 ! i) ''MRN no'' = Some no \<and>
                 map_of (rows2 ! i) ''Rejected Amount'' = Some amount)
            else rows2 ! i = rows ! i"
    proof (cases "i < length items")
      case True
      from mrn_row_fields[OF overlay_loop_row[OF loop i True]] True show ?thesis
        by (simp only: if_True)
    next
      case False
      then have "length items \<le> i" by simp
      from overlay_loop_beyond[OF loop i this] False show ?thesis by (simp only: if_False)
    qed
  qed
  with len it show ?thesis by blast
qed

subsection \<open>Overlays that complete, and overlays that raise\<close>

lemma overlay_loop_mappings:
  assumes body: "\<And>row it. body row (JObj it) = Inr (G row it)"
  shows "\<exists>rows'. overlay_loop body 0 rows (map JObj its) = Inr rows' \<and>
           length rows' = length rows \<and>
           (\<forall>i<length rows. i < length its \<longrightarrow> rows' ! i = G (rows ! i) (its ! i))"
proof -
  have "\<exists>rows'. overlay_loop body 0 rows (map JObj its) = Inr rows'"
  proof (rule overlay_loop_total)
    fix j assume "j < 0 + length (map JObj its)"
    then have "map JObj its ! (j - 0) = JObj (its ! j)" by simp
    then show "\<exists>r. body (rows ! j) (map JObj its ! (j - 0)) = Inr r"
      using body by simp
  qed
  then obtain rows' where loop: "overlay_loop body 0 rows (map JObj its) = Inr rows'" ..
  have "\<forall>i<length rows. i < length its \<longrightarrow> rows' ! i = G (rows ! i) (its ! i)"
  proof (intro allI impI)
    fix i assume i: "i < length rows" and j: "i < length its"
    then have "i < length (map JObj its)" by simp
    from overlay_loop_row[OF loop i this] j have "body (rows ! i) (JObj (its ! i)) = Inr (rows' ! i)"
      by simp
    then show "rows' ! i = G (rows ! i) (its ! i)" by (simp add: body)
  qed
  with loop length_overlay_loop[OF loop] show ?thesis by blast
qed

lemma overlay_grn_mappings:
  assumes h: "getitem g ''header'' = Inr (JObj gh)"
    and no: "map_of gh ''GRN no'' = Some no" and date: "map_of gh ''GRN Date'' = Some date"
    and it: "iter_items g = Inr (map JObj its)"
  shows "\<exists>rows1. overlay_grn rows g = Inr rows1 \<and> length rows1 = length rows \<and>
     (\<forall>i<length rows. i < length its \<longrightarrow>
        map_of (rows1 ! i) ''GRN no'' = Some no \<and>
        map_of (rows1 ! i) ''GRN Date'' = Some date \<and>
        map_of (rows1 ! i) ''Delivered Qty'' = Some (field_or_empty (its ! i) ''Delivered Qty'') \<and>
        map_of (rows1 ! i) ''Remarks'' = Some (field_or_empty (its ! i) ''Remarks''))"
proof -
  from overlay_loop_mappings[of "grn_body g", OF grn_body_ok[OF h no date], of rows its]
  obtain rows1 where loop: "overlay_loop (grn_body g) 0 rows (map JObj its) = Inr rows1"
    and len: "length rows1 = length rows"
    and nth: "\<forall>i<length rows. i < length its \<longrightarrow>
       rows1 ! i = dict_set (dict_set (dict_set (dict_set (rows ! i) ''GRN no'' no) ''GRN Date'' date)
            ''Delivered Qty'' (field_or_empty (its ! i) ''Delivered Qty''))
            ''Remarks'' (field_or_empty (its ! i) ''Remarks'')" by blast
  have "overlay_grn rows g = Inr rows1" by (simp add: overlay_grn_def it loop)
  moreover have "\<forall>i<length rows. i < length its \<longrightarrow>
        map_of (rows1 ! i) ''GRN no'' = Some no \<and>
        map_of (rows1 ! i) ''GRN Date'' = Some date \<and>
        map_of (rows1 ! i) ''Delivered Qty'' = Some (field_or_empty (its ! i) ''Delivered Qty'') \<and>
        map_of (rows1 ! i) ''Remarks'' = Some (field_or_empty (its ! i) ''Remarks'')"
  proof (intro allI impI)
    fix i assume "i < length rows" "i < length its"
    with nth have "rows1 ! i = dict_set (dict_set (dict_set (dict_set (rows ! i) ''GRN no'' no) ''GRN Date'' date)
            ''Delivered Qty'' (field_or_empty (its ! i) ''Delivered Qty''))
            ''Remarks'' (field_or_empty (its ! i) ''Remarks'')" by blast
    then show "map_of (rows1 ! i) ''GRN no'' = Some no \<and>
        map_of (rows1 ! i) ''GRN Date'' = Some date \<and>
        map_of (rows1 ! i) ''Delivered Qty'' = Some (field_or_empty (its ! i) ''Delivered Qty'') \<and>
        map_of (rows1 ! i) ''Remarks'' = Some (field_or_empty (its ! i) ''Remarks'')"
      by (simp add: map_of_dict_set)
  qed
  ultimately show ?thesis using len by blast
qed

lemma overlay_mrn_mappings:
  assumes h: "getitem m ''header'' = Inr (JObj mh)"
    and no: "map_of mh ''MRN no'' = Some no"
    and it: "iter_items m = Inr (map JObj its)"
  shows "\<exists>rows2. overlay_mrn rows m = Inr rows2 \<and> length rows2 = length rows \<and>
     (\<forall>i<length rows. i < length its \<longrightarrow>
        map_of (rows2 ! i) ''MRN no'' = Some no \<and>
        map_of (rows2 ! i) ''Rejected Amount'' = Some (field_or_empty (its ! i) ''Rejected Amount''))"
proof -
  from overlay_loop_mappings[of "mrn_body m", OF mrn_body_ok[OF h no], of rows its]
  obtain rows2 where loop: "overlay_loop (mrn_body m) 0 rows (map JObj its) = Inr rows2"
    and len: "length rows2 = length rows"
    and nth: "\<forall>i<length rows. i < length its \<longrightarrow>
       rows2 ! i = dict_set (dict_set (rows ! i) ''MRN no'' no)
            ''Rejected Amount'' (field_or_empty (its ! i) ''Rejected Amount'')" by blast
  have "overlay_mrn rows m = Inr rows2" by (simp add: overlay_mrn_def it loop)
  moreover have "\<forall>i<length rows. i < length its \<longrightarrow>
        map_of (rows2 ! i) ''MRN no'' = Some no \<and>
        map_of (rows2 ! i) ''Rejected Amount'' = Some (field_or_empty (its ! i) ''Rejected Amount'')"
  proof (intro allI impI)
    fix i assume "i < length rows" "i < length its"
    with nth have "rows2 ! i = dict_set (dict_set (rows ! i) ''MRN no'' no)
            ''Rejected Amount'' (field_or_empty (its ! i) ''Rejected Amount'')" by blast
    then show "map_of (rows2 ! i) ''MRN no'' = Some no \<and>
        map_of (rows2 ! i) ''Rejected Amount'' = Some (field_or_empty (its ! i) ''Rejected Amount'')"
      by (simp add: map_of_dict_set)
  qed
  ultimately show ?thesis using len by blast
qed

lemma overlay_grn_missing_key:
  assumes h: "getitem g ''header'' = Inr (JObj gh)"
    and miss: "map_of gh ''GRN no'' = None \<or> map_of gh ''GRN Date'' = None"
    and it: "iter_items g = Inr items" and ne: "items \<noteq> []" "rows \<noteq> []"
  shows "overlay_grn rows g =
     Inl (KeyError (if map_of gh ''GRN no'' = None then ''GRN no'' else ''GRN Date''))"
proof -
  have "overlay_loop (grn_body g) 0 rows items =
     Inl (KeyError (if map_of gh ''GRN no'' = None then ''GRN no'' else ''GRN Date''))"
    by (rule overlay_loop_first_fails[OF ne(2) ne(1)]) (rule grn_body_missing_key[OF h miss])
  then show ?thesis by (simp add: overlay_grn_def it)
qed

lemma overlay_mrn_missing_key:
  assumes h: "getitem m ''header'' = Inr (JObj mh)"
    and miss: "map_of mh ''MRN no'' = None"
    and it: "iter_items m = Inr items" and ne: "items \<noteq> []" "rows \<noteq> []"
  shows "overlay_mrn rows m = Inl (KeyError ''MRN no'')"
proof -
  have "overlay_loop (mrn_body m) 0 rows items = Inl (KeyError ''MRN no'')"
    by (rule overlay_loop_first_fails[OF ne(2) ne(1)]) (rule mrn_body_missing_key[OF h miss])
  then show ?thesis by (simp add: overlay_mrn_def it)
qed

lemma overlay_no_overlap:
  assumes it: "iter_items d = Inr items" and "items = [] \<or> rows = []"
  shows "overlay_grn rows d = Inr rows \<and> overlay_mrn rows d = Inr rows"
proof -
  from assms(2) have "items = [] \<or> length rows \<le> 0" by simp
  then have "\<And>body. overlay_loop body 0 rows items = Inr rows"
    by (rule overlay_loop_no_overlap)
  then show ?thesis by (simp add: overlay_grn_def overlay_mrn_def it)
qed

lemma field_or_empty_missing: "map_of it k = None \<Longrightarrow> field_or_empty it k = JStr ''''"
  by (simp add: field_or_empty_def)


lemma po_rows_mappings:
  assumes "getitem po ''header'' = Inr (JObj ph)" and "iter_items po = Inr (map JObj pits)"
  shows "po_rows po =
     Inr (map (\<lambda>it. dict_update (dict_update (dict_update [] ph) it) placeholders) pits)"
  using assms by (simp add: po_rows_def build_rows_mappings)

lemma po_rows_Inr:
  "po_rows po = Inr rows \<Longrightarrow>
   \<exists>header items. getitem po ''header'' = Inr header \<and> iter_items po = Inr items \<and>
     build_rows header items = Inr rows"
  by (auto simp: po_rows_def split: sum.splits)

lemma merge_engine_Inr:
  "merge_engine po grn mrn = Inr rows \<Longrightarrow>
   \<exists>rows0 rows1. po_rows po = Inr rows0 \<and> overlay_grn rows0 grn = Inr rows1 \<and>
     overlay_mrn rows1 mrn = Inr rows"
  by (auto simp: merge_engine_def split: sum.splits)


lemma grn_written_fields:
  "map_of (grn_written row no date it) ''GRN no'' = Some no"
  "map_of (grn_written row no date it) ''GRN Date'' = Some date"
  "map_of (grn_written row no date it) ''Delivered Qty'' = Some (field_or_empty it ''Delivered Qty'')"
  "map_of (grn_written row no date it) ''Remarks'' = Some (field_or_empty it ''Remarks'')"
  "map_of (grn_written row no date it) ''MRN no'' = map_of row ''MRN no''"
  "map_of (grn_written row no date it) ''Rejected Amount'' = map_of row ''Rejected Amount''"
  by (simp_all add: grn_written_def map_of_dict_set)

lemma mrn_written_fields:
  "map_of (mrn_written row no it) ''MRN no'' = Some no"
  "map_of (mrn_written row no it) ''Rejected Amount'' = Some (field_or_empty it ''Rejected Amount'')"
  "map_of (mrn_written row no it) ''GRN no'' = map_of row ''GRN no''"
  "map_of (mrn_written row no it) ''GRN Date'' = map_of row ''GRN Date''"
  "map_of (mrn_written row no it) ''Delivered Qty'' = map_of row ''Delivered Qty''"
  "map_of (mrn_written row no it) ''Remarks'' = map_of row ''Remarks''"
  by (simp_all add: mrn_written_def map_of_dict_set)

lemma base_row_placeholders:
  "map_of (base_row ph it) ''GRN no'' = Some (JStr '''')"
  "map_of (base_row ph it) ''GRN Date'' = Some (JStr '''')"
  "map_of (base_row ph it) ''Delivered Qty'' = Some (JStr '''')"
  "map_of (base_row ph it) ''Remarks'' = Some (JStr '''')"
  "map_of (base_row ph it) ''MRN no'' = Some (JStr '''')"
  "map_of (base_row ph it) ''Rejected Amount'' = Some (JStr '''')"
  by (simp_all add: base_row_def map_of_placeholders)

lemma merge_three_rows:
  assumes ph: "getitem po ''header'' = Inr (JObj ph)"
    and pit: "iter_items po = Inr [JObj p0, JObj p1, JObj p2]"
    and gh: "getitem grn ''header'' = Inr (JObj gh)"
    and gno: "map_of gh ''GRN no'' = Some gno" and gdate: "map_of gh ''GRN Date'' = Some gdate"
    and git: "iter_items grn = Inr [JObj g0, JObj g1]"
    and mh: "getitem mrn ''header'' = Inr (JObj mh)" and mno: "map_of mh ''MRN no'' = Some mno"
    and mit: "iter_items mrn = Inr (JObj m0 # JObj m1 # JObj m2 # rest)"
  shows "merge_engine po grn mrn =
     Inr [mrn_written (grn_written (base_row ph p0) gno gdate g0) mno m0,
          mrn_written (grn_written (base_row ph p1) gno gdate g1) mno m1,
          mrn_written (base_row ph p2) mno m2]"
proof -
  have r0: "po_rows po = Inr [base_row ph p0, base_row ph p1, base_row ph p2]"
    using po_rows_mappings[OF ph, of "[p0, p1, p2]"] pit by (simp add: base_row_def)
  have gb: "\<And>row it. grn_body grn row (JObj it) = Inr (grn_written row gno gdate it)"
    unfolding grn_written_def by (rule grn_body_ok[OF gh gno gdate])
  have mb: "\<And>row it. mrn_body mrn row (JObj it) = Inr (mrn_written row mno it)"
    unfolding mrn_written_def by (rule mrn_body_ok[OF mh mno])
  have r1: "overlay_grn [base_row ph p0, base_row ph p1, base_row ph p2] grn =
     Inr [grn_written (base_row ph p0) gno gdate g0, grn_written (base_row ph p1) gno gdate g1,
          base_row ph p2]"
    by (simp add: overlay_grn_def git gb)
  have tail: "\<And>rows. length rows = 3 \<Longrightarrow>
     overlay_loop (mrn_body mrn) (Suc (Suc (Suc 0))) rows rest = Inr rows"
    by (rule overlay_loop_no_overlap) simp
  have r2: "overlay_mrn [grn_written (base_row ph p0) gno gdate g0,
                         grn_written (base_row ph p1) gno gdate g1, base_row ph p2] mrn =
     Inr [mrn_written (grn_written (base_row ph p0) gno gdate g0) mno m0,
          mrn_written (grn_written (base_row ph p1) gno gdate g1) mno m1,
          mrn_written (base_row ph p2) mno m2]"
    by (simp add: overlay_mrn_def mit mb tail)
  show ?thesis by (simp add: merge_engine_def r0 r1 r2)
qed


section \<open>The decoder's step budget\<close>

text \<open>
  Every successful call of the scanner consumes input, and a call on an input of length
  \<open>l\<close> makes at most \<open>2 * l + 1\<close> nested calls. So the decoder never returns with its
  step budget used up: its failures are decode errors.
\<close>

lemma scan_escape_shorter: "scan_escape s = Some (x, r) \<Longrightarrow> length r < length s"
  by (auto simp: scan_escape_def split: list.splits if_splits option.splits)

lemma scanstring_shorter: "scanstring s = Inr (x, r) \<Longrightarrow> length r < length s"
proof (induction s arbitrary: x r rule: scanstring.induct)
  case 1
  then show ?case by simp
next
  case (2 c cs)
  show ?case
  proof (cases "c = CHR 0x22")
    case True
    with 2(3) show ?thesis by simp
  next
    case q: False
    show ?thesis
    proof (cases "c = CHR 0x5C")
      case True
      with q 2(3) obtain y r' str where e: "scan_escape cs = Some (y, r')"
        and s: "scanstring r' = Inr (str, r)"
        by (auto split: option.splits sum.splits)
      from 2(1)[OF q True e refl s] scan_escape_shorter[OF e] show ?thesis by simp
    next
      case b: False
      with q 2(3) obtain str where c: "\<not> (of_char c :: nat) < 0x20"
        and s: "scanstring cs = Inr (str, r)"
        by (auto split: if_splits sum.splits)
      from 2(2)[OF q b c s] show ?thesis by simp
    qed
  qed
qed

lemma skip_ws_le: "length (skip_ws s) \<le> length s"
  by (simp add: skip_ws_def length_dropWhile_le)

lemma match_fraction_le: "match_fraction s = (f, r) \<Longrightarrow> length r \<le> length s"
  by (auto simp: match_fraction_def split: list.splits if_splits
      intro: le_SucI length_dropWhile_le)

lemma match_exponent_le: "match_exponent s = (e, r) \<Longrightarrow> length r \<le> length s"
  by (auto simp: match_exponent_def Let_def split: list.splits if_splits prod.splits
      intro: le_SucI length_dropWhile_le order_trans[OF length_dropWhile_le])


lemma match_number_shorter: "match_number s = Some (v, r) \<Longrightarrow> length r < length s"
proof -
  assume a: "match_number s = Some (v, r)"
  obtain neg s1 where n: "(case s of [] \<Rightarrow> (False, s)
      | c # r \<Rightarrow> if c = CHR ''-'' then (True, r) else (False, s)) = (neg, s1)"
    by (cases "(case s of [] \<Rightarrow> (False, s)
      | c # r \<Rightarrow> if c = CHR ''-'' then (True, r) else (False, s))") auto
  then have l1: "length s1 \<le> length s" by (auto split: list.splits if_splits)
  from a n obtain d ds where s1: "s1 = d # ds" and dg: "is_digit d"
    by (auto simp: match_number_def split: list.splits if_splits)
  obtain ipart s2 where i: "(if d = CHR ''0'' then ([d], ds)
       else (d # takeWhile is_digit ds, dropWhile is_digit ds)) = (ipart, s2)"
    by (cases "(if d = CHR ''0'' then ([d], ds)
       else (d # takeWhile is_digit ds, dropWhile is_digit ds))") auto
  then have l2: "length s2 \<le> length ds" by (auto split: if_splits intro: length_dropWhile_le)
  obtain frac s3 where f: "match_fraction s2 = (frac, s3)" by (cases "match_fraction s2") auto
  obtain ex s4 where e: "match_exponent s3 = (ex, s4)" by (cases "match_exponent s3") auto
  from a n s1 dg i f e have "r = s4"
    by (auto simp: match_number_def split: if_splits)
  moreover have "length s4 \<le> length s3" by (rule match_exponent_le[OF e])
  moreover have "length s3 \<le> length s2" by (rule match_fraction_le[OF f])
  ultimately show ?thesis using l1 l2 s1 by simp
qed


lemma skip_ws_Cons: "skip_ws cs = q # r \<Longrightarrow> length r < length cs"
  using skip_ws_le[of cs] by simp

lemma scan_once_step:
  assumes a: "scan_once (Suc n) s = Inr (v, r)"
    and obj: "\<And>pairs s v r. object_members n pairs s = Inr (v, r) \<Longrightarrow> length r < length s"
    and arr: "\<And>vals s v r. array_elements n vals s = Inr (v, r) \<Longrightarrow> length r < length s"
  shows "length r < length s"
proof (cases s)
  case Nil
  with a show ?thesis by simp
next
  case (Cons c cs)
  consider (str) "c = CHR 0x22" | (object) "c \<noteq> CHR 0x22" "c = CHR ''{''"
    | (array) "c \<noteq> CHR 0x22" "c \<noteq> CHR ''{''" "c = CHR ''[''"
    | (atom) "c \<noteq> CHR 0x22" "c \<noteq> CHR ''{''" "c \<noteq> CHR ''[''" by blast
  then show ?thesis
  proof cases
    case str
    with a Cons obtain x where "scanstring cs = Inr (x, r)"
      by (auto split: sum.splits)
    from scanstring_shorter[OF this] Cons show ?thesis by simp
  next
    case object
    with a Cons obtain q r' where sk: "skip_ws cs = q # r'"
      and d: "(q = CHR ''}'' \<and> r = r') \<or> (q = CHR 0x22 \<and> object_members n [] r' = Inr (v, r))"
      by (auto split: list.splits if_splits)
    from d have "length r \<le> length r'"
      using obj[of "[]" r' v r] by auto
    with skip_ws_Cons[OF sk] Cons show ?thesis by simp
  next
    case array
    with a Cons obtain q r' where sk: "skip_ws cs = q # r'"
      and d: "(q = CHR '']'' \<and> r = r') \<or> array_elements n [] (q # r') = Inr (v, r)"
      by (auto split: list.splits if_splits)
    from d have "length r \<le> length r'"
      using arr[of "[]" "q # r'" v r] by auto
    with skip_ws_Cons[OF sk] Cons show ?thesis by simp
  next
    case atom
    from a Cons atom have
      "r = drop 4 s \<or> r = drop 5 s \<or> r = drop 3 s \<or> r = drop 8 s \<or> r = drop 9 s
        \<or> match_number s = Some (v, r)"
      by (auto split: if_splits option.splits)
    then show ?thesis
      using match_number_shorter[of s v r] Cons by auto
  qed
qed

lemma object_members_step:
  assumes a: "object_members (Suc n) pairs s = Inr (v, r)"
    and scan: "\<And>s v r. scan_once n s = Inr (v, r) \<Longrightarrow> length r < length s"
    and obj: "\<And>pairs s v r. object_members n pairs s = Inr (v, r) \<Longrightarrow> length r < length s"
  shows "length r < length s"
proof -
  from a obtain key r0 where k: "scanstring s = Inr (key, r0)"
    by (auto split: sum.splits)
  from a k obtain colon r1 where c: "skip_ws r0 = colon # r1"
    by (auto split: list.splits)
  from a k c obtain val r2 where v: "scan_once n (skip_ws r1) = Inr (val, r2)"
    by (auto split: if_splits sum.splits)
  from a k c v obtain d r3 where e: "skip_ws r2 = d # r3"
    by (auto split: if_splits list.splits)
  from a k c v e have
    "r = r3 \<or> (\<exists>q r4. skip_ws r3 = q # r4 \<and>
        object_members n (dict_set pairs key val) r4 = Inr (v, r))"
    by (auto split: if_splits list.splits)
  then have "length r \<le> length r3"
  proof
    assume "r = r3" then show ?thesis by simp
  next
    assume "\<exists>q r4. skip_ws r3 = q # r4 \<and>
        object_members n (dict_set pairs key val) r4 = Inr (v, r)"
    then obtain q r4 where s4: "skip_ws r3 = q # r4"
      and o: "object_members n (dict_set pairs key val) r4 = Inr (v, r)" by blast
    from obj[OF o] skip_ws_Cons[OF s4] show ?thesis by simp
  qed
  moreover have "length r3 < length r2" by (rule skip_ws_Cons[OF e])
  moreover have "length r2 < length (skip_ws r1)" by (rule scan[OF v])
  moreover have "length (skip_ws r1) \<le> length r1" by (rule skip_ws_le)
  moreover have "length r1 < length r0" by (rule skip_ws_Cons[OF c])
  moreover have "length r0 < length s" by (rule scanstring_shorter[OF k])
  ultimately show ?thesis by simp
qed

lemma array_elements_step:
  assumes a: "array_elements (Suc n) vals s = Inr (v, r)"
    and scan: "\<And>s v r. scan_once n s = Inr (v, r) \<Longrightarrow> length r < length s"
    and arr: "\<And>vals s v r. array_elements n vals s = Inr (v, r) \<Longrightarrow> length r < length s"
  shows "length r < length s"
proof -
  from a obtain val r0 where v: "scan_once n s = Inr (val, r0)"
    by (auto split: sum.splits)
  from a v obtain d r1 where e: "skip_ws r0 = d # r1"
    by (auto split: list.splits)
  from a v e have
    "r = r1 \<or> array_elements n (vals @ [val]) (skip_ws r1) = Inr (v, r)"
    by (auto split: if_splits)
  then have "length r \<le> length r1"
    using arr[of "vals @ [val]" "skip_ws r1" v r] skip_ws_le[of r1] by auto
  moreover have "length r1 < length r0" by (rule skip_ws_Cons[OF e])
  moreover have "length r0 < length s" by (rule scan[OF v])
  ultimately show ?thesis by simp
qed

lemma scan_rest_all:
  "(\<forall>s v r. scan_once n s = Inr (v, r) \<longrightarrow> length r < length s) \<and>
   (\<forall>pairs s v r. object_members n pairs s = Inr (v, r) \<longrightarrow> length r < length s) \<and>
   (\<forall>vals s v r. array_elements n vals s = Inr (v, r) \<longrightarrow> length r < length s)"
proof (induction n)
  case 0
  show ?case by simp
next
  case (Suc n)
  then have scan: "\<And>s v r. scan_once n s = Inr (v, r) \<Longrightarrow> length r < length s"
    and obj: "\<And>pairs s v r. object_members n pairs s = Inr (v, r) \<Longrightarrow> length r < length s"
    and arr: "\<And>vals s v r. array_elements n vals s = Inr (v, r) \<Longrightarrow> length r < length s"
    by blast+
  show ?case
  proof (intro conjI allI impI)
    fix s v r assume "scan_once (Suc n) s = Inr (v, r)"
    then show "length r < length s" by (rule scan_once_step) (erule obj arr)+
  next
    fix pairs s v r assume "object_members (Suc n) pairs s = Inr (v, r)"
    then show "length r < length s" by (rule object_members_step) (erule scan obj)+
  next
    fix vals s v r assume "array_elements (Suc n) vals s = Inr (v, r)"
    then show "length r < length s" by (rule array_elements_step) (erule scan arr)+
  qed
qed

lemma scan_rest:
  "scan_once n s = Inr (v, r) \<Longrightarrow> length r < length s"
  using scan_rest_all[of n] by blast

lemma scanstring_no_fuel: "scanstring s \<noteq> Inl OutOfFuel"
proof (induction s rule: scanstring.induct)
  case 1
  show ?case by simp
next
  case (2 c cs)
  show ?case
  proof
    assume a: "scanstring (c # cs) = Inl OutOfFuel"
    show False
    proof (cases "c = CHR 0x22")
      case True
      with a show False by simp
    next
      case q: False
      show False
      proof (cases "c = CHR 0x5C")
        case True
        with q a obtain y r' where e: "scan_escape cs = Some (y, r')"
          and s: "scanstring r' = Inl OutOfFuel"
          by (auto split: option.splits sum.splits)
        from 2(1)[OF q True e refl] s show False by simp
      next
        case b: False
        with q a have c: "\<not> (of_char c :: nat) < 0x20" and s: "scanstring cs = Inl OutOfFuel"
          by (auto split: if_splits sum.splits)
        from 2(2)[OF q b c] s show False by simp
      qed
    qed
  qed
qed

lemma scan_once_fuel_step:
  assumes b: "2 * length s + 1 \<le> Suc n"
    and obj: "\<And>pairs s. 2 * length s + 1 \<le> n \<Longrightarrow> object_members n pairs s \<noteq> Inl OutOfFuel"
    and arr: "\<And>vals s. 2 * length s + 2 \<le> n \<Longrightarrow> array_elements n vals s \<noteq> Inl OutOfFuel"
  shows "scan_once (Suc n) s \<noteq> Inl OutOfFuel"
proof
  assume a: "scan_once (Suc n) s = Inl OutOfFuel"
  then obtain c cs where Cons: "s = c # cs" by (cases s) auto
  consider (str) "c = CHR 0x22" | (object) "c \<noteq> CHR 0x22" "c = CHR ''{''"
    | (array) "c \<noteq> CHR 0x22" "c \<noteq> CHR ''{''" "c = CHR ''[''"
    | (atom) "c \<noteq> CHR 0x22" "c \<noteq> CHR ''{''" "c \<noteq> CHR ''[''" by blast
  then show False
  proof cases
    case str
    with a Cons have "scanstring cs = Inl OutOfFuel"
      by (auto split: sum.splits)
    with scanstring_no_fuel show False by blast
  next
    case object
    with a Cons obtain q r' where sk: "skip_ws cs = q # r'"
      and d: "object_members n [] r' = Inl OutOfFuel"
      by (auto split: list.splits if_splits)
    from skip_ws_Cons[OF sk] b Cons have "2 * length r' + 1 \<le> n" by simp
    from obj[OF this] d show False by blast
  next
    case array
    with a Cons obtain q r' where sk: "skip_ws cs = q # r'"
      and d: "array_elements n [] (q # r') = Inl OutOfFuel"
      by (auto split: list.splits if_splits)
    from skip_ws_le[of cs] sk b Cons have "2 * length (q # r') + 2 \<le> n" by simp
    from arr[OF this] d show False by blast
  next
    case atom
    with a Cons show False by (auto split: if_splits option.splits)
  qed
qed

lemma object_members_fuel_step:
  assumes b: "2 * length s + 1 \<le> Suc n"
    and scan: "\<And>s. 2 * length s + 1 \<le> n \<Longrightarrow> scan_once n s \<noteq> Inl OutOfFuel"
    and obj: "\<And>pairs s. 2 * length s + 1 \<le> n \<Longrightarrow> object_members n pairs s \<noteq> Inl OutOfFuel"
  shows "object_members (Suc n) pairs s \<noteq> Inl OutOfFuel"
proof
  assume a: "object_members (Suc n) pairs s = Inl OutOfFuel"
  from a scanstring_no_fuel[of s] obtain key r0 where k: "scanstring s = Inr (key, r0)"
    by (auto split: sum.splits)
  from a k obtain colon r1 where c: "skip_ws r0 = colon # r1"
    by (auto split: list.splits)
  have l1: "length (skip_ws r1) < length s"
    using skip_ws_le[of r1] skip_ws_Cons[OF c] scanstring_shorter[OF k] by simp
  then have "2 * length (skip_ws r1) + 1 \<le> n" using b by simp
  from scan[OF this] have nf: "scan_once n (skip_ws r1) \<noteq> Inl OutOfFuel" .
  from a k c nf obtain val r2 where v: "scan_once n (skip_ws r1) = Inr (val, r2)"
    by (auto split: if_splits sum.splits)
  from a k c v obtain d r3 where e: "skip_ws r2 = d # r3"
    by (auto split: if_splits list.splits)
  from a k c v e obtain q r4 where s4: "skip_ws r3 = q # r4"
    and o: "object_members n (dict_set pairs key val) r4 = Inl OutOfFuel"
    by (auto split: if_splits list.splits)
  have "length r4 < length s"
    using skip_ws_Cons[OF s4] skip_ws_Cons[OF e] scan_rest[OF v] l1 by simp
  then have "2 * length r4 + 1 \<le> n" using b by simp
  from obj[OF this] o show False by blast
qed

lemma array_elements_fuel_step:
  assumes b: "2 * length s + 2 \<le> Suc n"
    and scan: "\<And>s. 2 * length s + 1 \<le> n \<Longrightarrow> scan_once n s \<noteq> Inl OutOfFuel"
    and arr: "\<And>vals s. 2 * length s + 2 \<le> n \<Longrightarrow> array_elements n vals s \<noteq> Inl OutOfFuel"
  shows "array_elements (Suc n) vals s \<noteq> Inl OutOfFuel"
proof
  assume a: "array_elements (Suc n) vals s = Inl OutOfFuel"
  from b have "2 * length s + 1 \<le> n" by simp
  from scan[OF this] have nf: "scan_once n s \<noteq> Inl OutOfFuel" .
  from a nf obtain val r0 where v: "scan_once n s = Inr (val, r0)"
    by (auto split: sum.splits)
  from a v obtain d r1 where e: "skip_ws r0 = d # r1"
    by (auto split: list.splits)
  from a v e have o: "array_elements n (vals @ [val]) (skip_ws r1) = Inl OutOfFuel"
    by (auto split: if_splits)
  have "length (skip_ws r1) + 2 \<le> length s"
    using skip_ws_le[of r1] skip_ws_Cons[OF e] scan_rest[OF v] by simp
  then have "2 * length (skip_ws r1) + 2 \<le> n" using b by simp
  from arr[OF this] o show False by blast
qed

lemma fuel_all:
  "(\<forall>s. 2 * length s + 1 \<le> n \<longrightarrow> scan_once n s \<noteq> Inl OutOfFuel) \<and>
   (\<forall>pairs s. 2 * length s + 1 \<le> n \<longrightarrow> object_members n pairs s \<noteq> Inl OutOfFuel) \<and>
   (\<forall>vals s. 2 * length s + 2 \<le> n \<longrightarrow> array_elements n vals s \<noteq> Inl OutOfFuel)"
proof (induction n)
  case 0
  show ?case by simp
next
  case (Suc n)
  then have scan: "\<And>s. 2 * length s + 1 \<le> n \<Longrightarrow> scan_once n s \<noteq> Inl OutOfFuel"
    and obj: "\<And>pairs s. 2 * length s + 1 \<le> n \<Longrightarrow> object_members n pairs s \<noteq> Inl OutOfFuel"
    and arr: "\<And>vals s. 2 * length s + 2 \<le> n \<Longrightarrow> array_elements n vals s \<noteq> Inl OutOfFuel"
    by simp_all
  show ?case
  proof (intro conjI allI impI)
    fix s :: string assume "2 * length s + 1 \<le> Suc n"
    then show "scan_once (Suc n) s \<noteq> Inl OutOfFuel"
      by (rule scan_once_fuel_step) (erule obj arr)+
  next
    fix pairs and s :: string assume "2 * length s + 1 \<le> Suc n"
    then show "object_members (Suc n) pairs s \<noteq> Inl OutOfFuel"
      by (rule object_members_fuel_step) (erule scan obj)+
  next
    fix vals and s :: string assume "2 * length s + 2 \<le> Suc n"
    then show "array_elements (Suc n) vals s \<noteq> Inl OutOfFuel"
      by (rule array_elements_fuel_step) (erule scan arr)+
  qed
qed

lemma json_loads_no_fuel: "json_loads s \<noteq> Inl OutOfFuel"
proof -
  define X where "X = scan_once (Suc (2 * length s)) (skip_ws s)"
  have j: "json_loads s =
     (if prefix [CHR 0xEF, CHR 0xBB, CHR 0xBF] s then Inl JSONDecodeError
      else
        (case X of
           Inl e \<Rightarrow> Inl e
         | Inr (v, rest) \<Rightarrow> if skip_ws rest = [] then Inr v else Inl JSONDecodeError))"
    unfolding json_loads_def X_def by (rule refl)
  have "2 * length (skip_ws s) + 1 \<le> Suc (2 * length s)" using skip_ws_le[of s] by simp
  with fuel_all[of "Suc (2 * length s)"] have "X \<noteq> Inl OutOfFuel"
    unfolding X_def by blast
  then show ?thesis
    unfolding j by (cases X) (auto split: prod.splits)
qed

lemma parse_response_no_fuel: "parse_response raw \<noteq> Inl OutOfFuel"
  by (simp add: parse_response_def json_loads_no_fuel)

subsection \<open>Frame of the overlays\<close>

text \<open>
  Claim C4. When the GRN overlay completes, the row list keeps its length; in every row
  the entries under keys other than GRN no, GRN Date, Delivered Qty and Remarks are the
  same entries in the same order, so those fields keep their values; and every row at a
  position from the number of GRN items on is the row it was. The same holds for the MRN
  overlay with the keys MRN no and Rejected Amount.
\<close>

theorem overlay_frame:
  "(overlay_grn rows grn_data = Inr rows1 \<longrightarrow>
      length rows1 = length rows \<and>
      (\<forall>i<length rows.
         filter (\<lambda>p. fst p \<notin> grn_fields) (rows1 ! i) = filter (\<lambda>p. fst p \<notin> grn_fields) (rows ! i) \<and>
         (\<forall>k. k \<notin> grn_fields \<longrightarrow> map_of (rows1 ! i) k = map_of (rows ! i) k)) \<and>
      (\<exists>items. iter_items grn_data = Inr items \<and>
         (\<forall>i<length rows. length items \<le> i \<longrightarrow> rows1 ! i = rows ! i))) \<and>
   (overlay_mrn rows mrn_data = Inr rows2 \<longrightarrow>
      length rows2 = length rows \<and>
      (\<forall>i<length rows.
         filter (\<lambda>p. fst p \<notin> mrn_fields) (rows2 ! i) = filter (\<lambda>p. fst p \<notin> mrn_fields) (rows ! i) \<and>
         (\<forall>k. k \<notin> mrn_fields \<longrightarrow> map_of (rows2 ! i) k = map_of (rows ! i) k)) \<and>
      (\<exists>items. iter_items mrn_data = Inr items \<and>
         (\<forall>i<length rows. length items \<le> i \<longrightarrow> rows2 ! i = rows ! i)))"
proof (intro conjI impI)
  assume a: "overlay_grn rows grn_data = Inr rows1"
  from overlay_grn_Inr[OF a] obtain items where it: "iter_items grn_data = Inr items"
    and loop: "overlay_loop (grn_body grn_data) 0 rows items = Inr rows1" by blast
  show "length rows1 = length rows" by (rule length_overlay_loop[OF loop])
  show "\<forall>i<length rows.
         filter (\<lambda>p. fst p \<notin> grn_fields) (rows1 ! i) = filter (\<lambda>p. fst p \<notin> grn_fields) (rows ! i) \<and>
         (\<forall>k. k \<notin> grn_fields \<longrightarrow> map_of (rows1 ! i) k = map_of (rows ! i) k)"
  proof (intro allI impI conjI)
    fix i assume i: "i < length rows"
    show "filter (\<lambda>p. fst p \<notin> grn_fields) (rows1 ! i) = filter (\<lambda>p. fst p \<notin> grn_fields) (rows ! i)"
      by (rule overlay_grn_loop_frame[OF loop i])
  next
    fix i k assume i: "i < length rows" and k: "k \<notin> grn_fields"
    show "map_of (rows1 ! i) k = map_of (rows ! i) k"
      by (rule values_of_frame[OF overlay_grn_loop_frame[OF loop i] k])
  qed
  show "\<exists>items. iter_items grn_data = Inr items \<and>
         (\<forall>i<length rows. length items \<le> i \<longrightarrow> rows1 ! i = rows ! i)"
  proof (intro exI conjI allI impI)
    show "iter_items grn_data = Inr items" by (rule it)
  next
    fix i assume "i < length rows" "length items \<le> i"
    then show "rows1 ! i = rows ! i" by (rule overlay_loop_beyond[OF loop])
  qed
next
  assume a: "overlay_mrn rows mrn_data = Inr rows2"
  from overlay_mrn_Inr[OF a] obtain items where it: "iter_items mrn_data = Inr items"
    and loop: "overlay_loop (mrn_body mrn_data) 0 rows items = Inr rows2" by blast
  show "length rows2 = length rows" by (rule length_overlay_loop[OF loop])
  show "\<forall>i<length rows.
         filter (\<lambda>p. fst p \<notin> mrn_fields) (rows2 ! i) = filter (\<lambda>p. fst p \<notin> mrn_fields) (rows ! i) \<and>
         (\<forall>k. k \<notin> mrn_fields \<longrightarrow> map_of (rows2 ! i) k = map_of (rows ! i) k)"
  proof (intro allI impI conjI)
    fix i assume i: "i < length rows"
    show "filter (\<lambda>p. fst p \<notin> mrn_fields) (rows2 ! i) = filter (\<lambda>p. fst p \<notin> mrn_fields) (rows ! i)"
      by (rule overlay_mrn_loop_frame[OF loop i])
  next
    fix i k assume i: "i < length rows" and k: "k \<notin> mrn_fields"
    show "map_of (rows2 ! i) k = map_of (rows ! i) k"
      by (rule values_of_frame[OF overlay_mrn_loop_frame[OF loop i] k])
  qed
  show "\<exists>items. iter_items mrn_data = Inr items \<and>
         (\<forall>i<length rows. length items \<le> i \<longrightarrow> rows2 ! i = rows ! i)"
  proof (intro exI conjI allI impI)
    show "iter_items mrn_data = Inr items" by (rule it)
  next
    fix i assume "i < length rows" "length items \<le> i"
    then show "rows2 ! i = rows ! i" by (rule overlay_loop_beyond[OF loop])
  qed
qed

theorem overlay_frame_witness:
  "overlay_grn ex_rows ex_grn =
     Inr [[(''po no'', JStr ''100''), (''GRN no'', JStr ''G1''), (''MRN no'', JStr ''''),
           (''GRN Date'', JStr ''2024-01-01''), (''Delivered Qty'', JStr ''5''),
           (''Remarks'', JStr ''OK'')],
          [(''po no'', JStr ''101'')]] \<and>
   overlay_mrn ex_rows ex_mrn =
     Inr [[(''po no'', JStr ''100''), (''GRN no'', JStr ''''), (''MRN no'', JStr ''M1''),
           (''Rejected Amount'', JStr ''0'')],
          [(''po no'', JStr ''101'')]] \<and>
   iter_items ex_grn = Inr [JObj [(''Delivered Qty'', JStr ''5''), (''Remarks'', JStr ''OK'')]] \<and>
   iter_items ex_mrn = Inr [JObj [(''Rejected Amount'', JStr ''0'')]] \<and>
   length ex_rows = 2"
  using overlay_frame [of ex_rows ex_grn
      "[[(''po no'', JStr ''100''), (''GRN no'', JStr ''G1''), (''MRN no'', JStr ''''),
         (''GRN Date'', JStr ''2024-01-01''), (''Delivered Qty'', JStr ''5''),
         (''Remarks'', JStr ''OK'')],
        [(''po no'', JStr ''101'')]]"
      ex_mrn
      "[[(''po no'', JStr ''100''), (''GRN no'', JStr ''''), (''MRN no'', JStr ''M1''),
         (''Rejected Amount'', JStr ''0'')],
        [(''po no'', JStr ''101'')]]"]
  by (simp add: overlay_grn_def overlay_mrn_def iter_items_def grn_body_def mrn_body_def
        ex_rows_def ex_grn_def ex_mrn_def)

subsection \<open>One row per PO item\<close>

text \<open>
  Claim C1, as stated, gives one merged row per PO item for every GRN and every MRN
  extraction result. The data model does not promise the header keys, and the GRN loop
  reads \<^verbatim>\<open>grn_data["header"]["GRN no"]\<close> without a default: with one PO item and a GRN
  result whose header is the empty dict and whose only item is the empty dict, the merge
  raises \<open>KeyError\<close> and produces no row.
\<close>

theorem merge_row_count_counterexample:
  "iter_items ex_po =
     Inr [JObj [(''Material Description'', JStr ''Widget''), (''Quantity'', JStr ''5'')]] \<and>
   merge_engine ex_po ex_grn_no_keys ex_mrn = Inl (KeyError ''GRN no'')"
  by (simp add: merge_engine_def po_rows_def make_row_def dict_update_def placeholders_def
        overlay_grn_def iter_items_def grn_body_def ex_po_def ex_grn_no_keys_def)

text \<open>
  Claim C1, amended. Whenever the merge engine completes, it returns exactly one row per
  PO item, in the order of the PO items: the row at position \<open>i\<close> is the row built from
  the PO header and the PO item at position \<open>i\<close>, up to the six GRN and MRN fields. It
  completes whenever the three extraction results have the shape of the data model, the
  GRN header holds GRN no and GRN Date and the MRN header holds MRN no, and then the
  number of rows is the number of PO items whatever the numbers of GRN and MRN items:
  GRN and MRN items never add rows. With no PO item the result is the empty list for every
  GRN and MRN result whose items can be iterated, whatever their headers and items hold.
\<close>

theorem merge_row_count:
  "(merge_engine po grn mrn = Inr rows \<longrightarrow>
      (\<exists>header items.
         getitem po ''header'' = Inr header \<and> iter_items po = Inr items \<and>
         length rows = length items \<and>
         (\<forall>i<length items. \<exists>r.
            make_row header (items ! i) = Inr r \<and>
            (\<forall>k. k \<notin> grn_fields \<and> k \<notin> mrn_fields \<longrightarrow> map_of (rows ! i) k = map_of r k)))) \<and>
   (getitem po' ''header'' = Inr (JObj ph) \<and> iter_items po' = Inr (map JObj pits) \<and>
    getitem grn' ''header'' = Inr (JObj gh) \<and> map_of gh ''GRN no'' = Some gno \<and>
    map_of gh ''GRN Date'' = Some gdate \<and> iter_items grn' = Inr (map JObj gits) \<and>
    getitem mrn' ''header'' = Inr (JObj mh) \<and> map_of mh ''MRN no'' = Some mno \<and>
    iter_items mrn' = Inr (map JObj mits) \<longrightarrow>
      (\<exists>rows'. merge_engine po' grn' mrn' = Inr rows' \<and> length rows' = length pits)) \<and>
   (getitem po0 ''header'' = Inr h0 \<and> iter_items po0 = Inr [] \<and>
    iter_items grn0 = Inr gitems \<and> iter_items mrn0 = Inr mitems \<longrightarrow>
      merge_engine po0 grn0 mrn0 = Inr [])"
proof (intro conjI impI)
  assume a: "merge_engine po grn mrn = Inr rows"
  from merge_engine_Inr[OF a] obtain rows0 rows1 where
    r0: "po_rows po = Inr rows0" and r1: "overlay_grn rows0 grn = Inr rows1"
    and r2: "overlay_mrn rows1 mrn = Inr rows" by blast
  from po_rows_Inr[OF r0] obtain header items where
    h: "getitem po ''header'' = Inr header" and it: "iter_items po = Inr items"
    and b: "build_rows header items = Inr rows0" by blast
  from overlay_grn_Inr[OF r1] obtain gitems where
    gl: "overlay_loop (grn_body grn) 0 rows0 gitems = Inr rows1" by blast
  from overlay_mrn_Inr[OF r2] obtain mitems where
    ml: "overlay_loop (mrn_body mrn) 0 rows1 mitems = Inr rows" by blast
  have l0: "length rows0 = length items" by (rule length_build_rows[OF b])
  have l1: "length rows1 = length rows0" by (rule length_overlay_loop[OF gl])
  have l2: "length rows = length rows1" by (rule length_overlay_loop[OF ml])
  have len: "length rows = length items" using l0 l1 l2 by simp
  have "\<forall>i<length items. \<exists>r.
            make_row header (items ! i) = Inr r \<and>
            (\<forall>k. k \<notin> grn_fields \<and> k \<notin> mrn_fields \<longrightarrow> map_of (rows ! i) k = map_of r k)"
  proof (intro allI impI)
    fix i assume i: "i < length items"
    then have i0: "i < length rows0" and i1: "i < length rows1" using l0 l1 by simp_all
    have mk: "make_row header (items ! i) = Inr (rows0 ! i)" by (rule build_rows_nth[OF b i])
    have "\<forall>k. k \<notin> grn_fields \<and> k \<notin> mrn_fields \<longrightarrow> map_of (rows ! i) k = map_of (rows0 ! i) k"
    proof (intro allI impI)
      fix k assume k: "k \<notin> grn_fields \<and> k \<notin> mrn_fields"
      then have kg: "k \<notin> grn_fields" and km: "k \<notin> mrn_fields" by simp_all
      have "map_of (rows ! i) k = map_of (rows1 ! i) k"
        by (rule values_of_frame[OF overlay_mrn_loop_frame[OF ml i1] km])
      also have "\<dots> = map_of (rows0 ! i) k"
        by (rule values_of_frame[OF overlay_grn_loop_frame[OF gl i0] kg])
      finally show "map_of (rows ! i) k = map_of (rows0 ! i) k" .
    qed
    with mk show "\<exists>r. make_row header (items ! i) = Inr r \<and>
            (\<forall>k. k \<notin> grn_fields \<and> k \<notin> mrn_fields \<longrightarrow> map_of (rows ! i) k = map_of r k)"
      by blast
  qed
  with h it len show "\<exists>header items.
         getitem po ''header'' = Inr header \<and> iter_items po = Inr items \<and>
         length rows = length items \<and>
         (\<forall>i<length items. \<exists>r.
            make_row header (items ! i) = Inr r \<and>
            (\<forall>k. k \<notin> grn_fields \<and> k \<notin> mrn_fields \<longrightarrow> map_of (rows ! i) k = map_of r k))"
    by blast
next
  assume a: "getitem po' ''header'' = Inr (JObj ph) \<and> iter_items po' = Inr (map JObj pits) \<and>
    getitem grn' ''header'' = Inr (JObj gh) \<and> map_of gh ''GRN no'' = Some gno \<and>
    map_of gh ''GRN Date'' = Some gdate \<and> iter_items grn' = Inr (map JObj gits) \<and>
    getitem mrn' ''header'' = Inr (JObj mh) \<and> map_of mh ''MRN no'' = Some mno \<and>
    iter_items mrn' = Inr (map JObj mits)"
  from a have ph: "getitem po' ''header'' = Inr (JObj ph)"
    and pit: "iter_items po' = Inr (map JObj pits)"
    and gh: "getitem grn' ''header'' = Inr (JObj gh)" and gno: "map_of gh ''GRN no'' = Some gno"
    and gdate: "map_of gh ''GRN Date'' = Some gdate"
    and git: "iter_items grn' = Inr (map JObj gits)"
    and mh: "getitem mrn' ''header'' = Inr (JObj mh)" and mno: "map_of mh ''MRN no'' = Some mno"
    and mit: "iter_items mrn' = Inr (map JObj mits)" by simp_all
  define rows0 where
    "rows0 = map (\<lambda>it. dict_update (dict_update (dict_update [] ph) it) placeholders) pits"
  have r0: "po_rows po' = Inr rows0" unfolding rows0_def by (rule po_rows_mappings[OF ph pit])
  from overlay_grn_mappings[OF gh gno gdate git, of rows0] obtain rows1 where
    r1: "overlay_grn rows0 grn' = Inr rows1" and l1: "length rows1 = length rows0" by blast
  from overlay_mrn_mappings[OF mh mno mit, of rows1] obtain rows2 where
    r2: "overlay_mrn rows1 mrn' = Inr rows2" and l2: "length rows2 = length rows1" by blast
  have "merge_engine po' grn' mrn' = Inr rows2" by (simp add: merge_engine_def r0 r1 r2)
  moreover have "length rows2 = length pits" using l1 l2 by (simp add: rows0_def)
  ultimately show "\<exists>rows'. merge_engine po' grn' mrn' = Inr rows' \<and> length rows' = length pits"
    by blast
next
  assume a: "getitem po0 ''header'' = Inr h0 \<and> iter_items po0 = Inr [] \<and>
    iter_items grn0 = Inr gitems \<and> iter_items mrn0 = Inr mitems"
  from a have h: "getitem po0 ''header'' = Inr h0" and it: "iter_items po0 = Inr []"
    and g: "iter_items grn0 = Inr gitems" and m: "iter_items mrn0 = Inr mitems" by simp_all
  have r0: "po_rows po0 = Inr []" by (simp add: po_rows_def h it)
  have "gitems = [] \<or> ([]::pydict list) = []" "mitems = [] \<or> ([]::pydict list) = []" by simp_all
  from overlay_no_overlap[OF g this(1)] overlay_no_overlap[OF m this(2)]
  have "overlay_grn [] grn0 = Inr []" "overlay_mrn [] mrn0 = Inr []" by simp_all
  with r0 show "merge_engine po0 grn0 mrn0 = Inr []" by (simp add: merge_engine_def)
qed

theorem merge_row_count_witness:
  "merge_engine ex_po ex_grn ex_mrn =
     Inr [[(''po no'', JStr ''100''), (''Material Description'', JStr ''Widget''),
           (''Quantity'', JStr ''5''), (''GRN no'', JStr ''G1''),
           (''GRN Date'', JStr ''2024-01-01''), (''Delivered Qty'', JStr ''5''),
           (''Remarks'', JStr ''OK''), (''MRN no'', JStr ''M1''),
           (''Rejected Amount'', JStr ''0'')]] \<and>
   iter_items ex_po =
     Inr [JObj [(''Material Description'', JStr ''Widget''), (''Quantity'', JStr ''5'')]] \<and>
   merge_engine ex3_po ex2_grn ex4_mrn =
     Inr [[(''po no'', JStr ''7''), (''Quantity'', JStr ''1''), (''GRN no'', JStr ''G''),
           (''GRN Date'', JStr ''D''), (''Delivered Qty'', JStr ''1''), (''Remarks'', JStr ''a''),
           (''MRN no'', JStr ''M''), (''Rejected Amount'', JStr ''10'')],
          [(''po no'', JStr ''7''), (''Quantity'', JStr ''2''), (''GRN no'', JStr ''G''),
           (''GRN Date'', JStr ''D''), (''Delivered Qty'', JStr ''2''), (''Remarks'', JStr ''''),
           (''MRN no'', JStr ''M''), (''Rejected Amount'', JStr '''')],
          [(''po no'', JStr ''7''), (''Quantity'', JStr ''3''), (''GRN no'', JStr ''''),
           (''GRN Date'', JStr ''''), (''Delivered Qty'', JStr ''''), (''Remarks'', JStr ''''),
           (''MRN no'', JStr ''M''), (''Rejected Amount'', JStr ''30'')]] \<and>
   merge_engine ex_po_empty ex2_grn ex4_mrn = Inr []"
  using merge_row_count
    [where po = ex_po and grn = ex_grn and mrn = ex_mrn
       and rows = "[[(''po no'', JStr ''100''), (''Material Description'', JStr ''Widget''),
           (''Quantity'', JStr ''5''), (''GRN no'', JStr ''G1''),
           (''GRN Date'', JStr ''2024-01-01''), (''Delivered Qty'', JStr ''5''),
           (''Remarks'', JStr ''OK''), (''MRN no'', JStr ''M1''),
           (''Rejected Amount'', JStr ''0'')]]"
       and po' = ex3_po and ph = "[(''po no'', JStr ''7'')]"
       and pits = "[[(''Quantity'', JStr ''1'')], [(''Quantity'', JStr ''2'')],
                    [(''Quantity'', JStr ''3'')]]"
       and grn' = ex2_grn and gh = "[(''GRN no'', JStr ''G''), (''GRN Date'', JStr ''D'')]"
       and gno = "JStr ''G''" and gdate = "JStr ''D''"
       and gits = "[[(''Delivered Qty'', JStr ''1''), (''Remarks'', JStr ''a'')],
                    [(''Delivered Qty'', JStr ''2'')]]"
       and mrn' = ex4_mrn and mh = "[(''MRN no'', JStr ''M'')]" and mno = "JStr ''M''"
       and mits = "[[(''Rejected Amount'', JStr ''10'')], [],
                    [(''Rejected Amount'', JStr ''30'')], [(''Rejected Amount'', JStr ''40'')]]"
       and ?po0.0 = ex_po_empty and ?h0.0 = "JObj [(''po no'', JStr ''100'')]"
       and ?grn0.0 = ex2_grn
       and gitems = "[JObj [(''Delivered Qty'', JStr ''1''), (''Remarks'', JStr ''a'')],
                      JObj [(''Delivered Qty'', JStr ''2'')]]"
       and ?mrn0.0 = ex4_mrn
       and mitems = "[JObj [(''Rejected Amount'', JStr ''10'')], JObj [],
                      JObj [(''Rejected Amount'', JStr ''30'')],
                      JObj [(''Rejected Amount'', JStr ''40'')]]"]
  by (simp add: overlay_grn_def overlay_mrn_def iter_items_def grn_body_def mrn_body_def
        merge_engine_def po_rows_def make_row_def dict_update_def placeholders_def
        ex_po_def ex_grn_def ex_mrn_def ex3_po_def ex2_grn_def ex4_mrn_def ex_po_empty_def)

subsection \<open>Positional overlay\<close>

text \<open>
  Claim C2. When the GRN overlay completes, the row list keeps its length; a row at a
  position below the number of GRN items holds GRN no and GRN Date of the GRN header and
  Delivered Qty and Remarks of the item at the same position; every other row is the row
  it was, so an item at a position from the number of rows on is dropped. The same holds
  for the MRN overlay with MRN no and Rejected Amount. With three PO items, two GRN items
  and four MRN items the merge returns exactly three rows: the first two hold the GRN
  fields of the first two GRN items, the third keeps the four empty GRN placeholders, all
  three hold the MRN fields of the first three MRN items, and the result is the one that
  the first three MRN items alone give.
\<close>

theorem overlay_positional:
  "(overlay_grn rows grn_data = Inr rows1 \<longrightarrow>
      length rows1 = length rows \<and>
      (\<exists>items. iter_items grn_data = Inr items \<and>
         (\<forall>i<length rows.
            if i < length items then
              (\<exists>h no date qty rem.
                 getitem grn_data ''header'' = Inr h \<and> getitem h ''GRN no'' = Inr no \<and>
                 getitem h ''GRN Date'' = Inr date \<and>
                 py_get (items ! i) ''Delivered Qty'' (JStr '''') = Inr qty \<and>
                 py_get (items ! i) ''Remarks'' (JStr '''') = Inr rem \<and>
                 map_of (rows1 ! i) ''GRN no'' = Some no \<and>
                 map_of (rows1 ! i) ''GRN Date'' = Some date \<and>
                 map_of (rows1 ! i) ''Delivered Qty'' = Some qty \<and>
                 map_of (rows1 ! i) ''Remarks'' = Some rem)
            else rows1 ! i = rows ! i))) \<and>
   (overlay_mrn rows mrn_data = Inr rows2 \<longrightarrow>
      length rows2 = length rows \<and>
      (\<exists>items. iter_items mrn_data = Inr items \<and>
         (\<forall>i<length rows.
            if i < length items then
              (\<exists>h no amount.
                 getitem mrn_data ''header'' = Inr h \<and> getitem h ''MRN no'' = Inr no \<and>
                 py_get (items ! i) ''Rejected Amount'' (JStr '''') = Inr amount \<and>
                 map_of (rows2 ! i) ''MRN no'' = Some no \<and>
                 map_of (rows2 ! i) ''Rejected Amount'' = Some amount)
            else rows2 ! i = rows ! i))) \<and>
   (getitem po ''header'' = Inr (JObj ph) \<and>
    iter_items po = Inr [JObj p0, JObj p1, JObj p2] \<and>
    getitem grn ''header'' = Inr (JObj gh) \<and> map_of gh ''GRN no'' = Some gno \<and>
    map_of gh ''GRN Date'' = Some gdate \<and> iter_items grn = Inr [JObj g0, JObj g1] \<and>
    getitem mrn ''header'' = Inr (JObj mh) \<and> map_of mh ''MRN no'' = Some mno \<and>
    iter_items mrn = Inr [JObj m0, JObj m1, JObj m2, m3] \<longrightarrow>
      (\<exists>r0 r1 r2.
         merge_engine po grn mrn = Inr [r0, r1, r2] \<and>
         map_of r0 ''GRN no'' = Some gno \<and> map_of r0 ''GRN Date'' = Some gdate \<and>
         map_of r0 ''Delivered Qty'' = Some (field_or_empty g0 ''Delivered Qty'') \<and>
         map_of r0 ''Remarks'' = Some (field_or_empty g0 ''Remarks'') \<and>
         map_of r1 ''GRN no'' = Some gno \<and> map_of r1 ''GRN Date'' = Some gdate \<and>
         map_of r1 ''Delivered Qty'' = Some (field_or_empty g1 ''Delivered Qty'') \<and>
         map_of r1 ''Remarks'' = Some (field_or_empty g1 ''Remarks'') \<and>
         map_of r2 ''GRN no'' = Some (JStr '''') \<and> map_of r2 ''GRN Date'' = Some (JStr '''') \<and>
         map_of r2 ''Delivered Qty'' = Some (JStr '''') \<and>
         map_of r2 ''Remarks'' = Some (JStr '''') \<and>
         map_of r0 ''MRN no'' = Some mno \<and>
         map_of r0 ''Rejected Amount'' = Some (field_or_empty m0 ''Rejected Amount'') \<and>
         map_of r1 ''MRN no'' = Some mno \<and>
         map_of r1 ''Rejected Amount'' = Some (field_or_empty m1 ''Rejected Amount'') \<and>
         map_of r2 ''MRN no'' = Some mno \<and>
         map_of r2 ''Rejected Amount'' = Some (field_or_empty m2 ''Rejected Amount'') \<and>
         merge_engine po grn
           (JObj [(''header'', JObj mh), (''items'', JArr [JObj m0, JObj m1, JObj m2])])
           = Inr [r0, r1, r2]))"
proof (intro conjI impI)
  assume "overlay_grn rows grn_data = Inr rows1"
  from overlay_grn_positional[OF this]
  show "length rows1 = length rows"
    and "\<exists>items. iter_items grn_data = Inr items \<and>
         (\<forall>i<length rows.
            if i < length items then
              (\<exists>h no date qty rem.
                 getitem grn_data ''header'' = Inr h \<and> getitem h ''GRN no'' = Inr no \<and>
                 getitem h ''GRN Date'' = Inr date \<and>
                 py_get (items ! i) ''Delivered Qty'' (JStr '''') = Inr qty \<and>
                 py_get (items ! i) ''Remarks'' (JStr '''') = Inr rem \<and>
                 map_of (rows1 ! i) ''GRN no'' = Some no \<and>
                 map_of (rows1 ! i) ''GRN Date'' = Some date \<and>
                 map_of (rows1 ! i) ''Delivered Qty'' = Some qty \<and>
                 map_of (rows1 ! i) ''Remarks'' = Some rem)
            else rows1 ! i = rows ! i)"
    by (rule conjunct1, rule conjunct2)
next
  assume "overlay_mrn rows mrn_data = Inr rows2"
  from overlay_mrn_positional[OF this]
  show "length rows2 = length rows"
    and "\<exists>items. iter_items mrn_data = Inr items \<and>
         (\<forall>i<length rows.
            if i < length items then
              (\<exists>h no amount.
                 getitem mrn_data ''header'' = Inr h \<and> getitem h ''MRN no'' = Inr no \<and>
                 py_get (items ! i) ''Rejected Amount'' (JStr '''') = Inr amount \<and>
                 map_of (rows2 ! i) ''MRN no'' = Some no \<and>
                 map_of (rows2 ! i) ''Rejected Amount'' = Some amount)
            else rows2 ! i = rows ! i)"
    by (rule conjunct1, rule conjunct2)
next
  assume a: "getitem po ''header'' = Inr (JObj ph) \<and>
    iter_items po = Inr [JObj p0, JObj p1, JObj p2] \<and>
    getitem grn ''header'' = Inr (JObj gh) \<and> map_of gh ''GRN no'' = Some gno \<and>
    map_of gh ''GRN Date'' = Some gdate \<and> iter_items grn = Inr [JObj g0, JObj g1] \<and>
    getitem mrn ''header'' = Inr (JObj mh) \<and> map_of mh ''MRN no'' = Some mno \<and>
    iter_items mrn = Inr [JObj m0, JObj m1, JObj m2, m3]"
  from a have ph: "getitem po ''header'' = Inr (JObj ph)"
    and pit: "iter_items po = Inr [JObj p0, JObj p1, JObj p2]"
    and gh: "getitem grn ''header'' = Inr (JObj gh)"
    and gno: "map_of gh ''GRN no'' = Some gno" and gdate: "map_of gh ''GRN Date'' = Some gdate"
    and git: "iter_items grn = Inr [JObj g0, JObj g1]"
    and mh: "getitem mrn ''header'' = Inr (JObj mh)" and mno: "map_of mh ''MRN no'' = Some mno"
    and mit: "iter_items mrn = Inr [JObj m0, JObj m1, JObj m2, m3]" by simp_all
  let ?m3 = "JObj [(''header'', JObj mh), (''items'', JArr [JObj m0, JObj m1, JObj m2])]"
  have mh3: "getitem ?m3 ''header'' = Inr (JObj mh)" by simp
  have mit3: "iter_items ?m3 = Inr (JObj m0 # JObj m1 # JObj m2 # [])"
    by (simp add: iter_items_def)
  note four = merge_three_rows[OF ph pit gh gno gdate git mh mno mit]
  note three = merge_three_rows[OF ph pit gh gno gdate git mh3 mno mit3]
  show "\<exists>r0 r1 r2.
         merge_engine po grn mrn = Inr [r0, r1, r2] \<and>
         map_of r0 ''GRN no'' = Some gno \<and> map_of r0 ''GRN Date'' = Some gdate \<and>
         map_of r0 ''Delivered Qty'' = Some (field_or_empty g0 ''Delivered Qty'') \<and>
         map_of r0 ''Remarks'' = Some (field_or_empty g0 ''Remarks'') \<and>
         map_of r1 ''GRN no'' = Some gno \<and> map_of r1 ''GRN Date'' = Some gdate \<and>
         map_of r1 ''Delivered Qty'' = Some (field_or_empty g1 ''Delivered Qty'') \<and>
         map_of r1 ''Remarks'' = Some (field_or_empty g1 ''Remarks'') \<and>
         map_of r2 ''GRN no'' = Some (JStr '''') \<and> map_of r2 ''GRN Date'' = Some (JStr '''') \<and>
         map_of r2 ''Delivered Qty'' = Some (JStr '''') \<and>
         map_of r2 ''Remarks'' = Some (JStr '''') \<and>
         map_of r0 ''MRN no'' = Some mno \<and>
         map_of r0 ''Rejected Amount'' = Some (field_or_empty m0 ''Rejected Amount'') \<and>
         map_of r1 ''MRN no'' = Some mno \<and>
         map_of r1 ''Rejected Amount'' = Some (field_or_empty m1 ''Rejected Amount'') \<and>
         map_of r2 ''MRN no'' = Some mno \<and>
         map_of r2 ''Rejected Amount'' = Some (field_or_empty m2 ''Rejected Amount'') \<and>
         merge_engine po grn ?m3 = Inr [r0, r1, r2]"
    apply (rule exI[of _ "mrn_written (grn_written (base_row ph p0) gno gdate g0) mno m0"])
    apply (rule exI[of _ "mrn_written (grn_written (base_row ph p1) gno gdate g1) mno m1"])
    apply (rule exI[of _ "mrn_written (base_row ph p2) mno m2"])
    apply (simp only: four three mrn_written_fields grn_written_fields base_row_placeholders)
    done
qed

theorem overlay_positional_witness:
  "overlay_grn ex_po_rows ex_grn =
     Inr [[(''po no'', JStr ''100''), (''Material Description'', JStr ''Widget''),
           (''Quantity'', JStr ''5''), (''GRN no'', JStr ''G1''),
           (''GRN Date'', JStr ''2024-01-01''), (''Delivered Qty'', JStr ''5''),
           (''Remarks'', JStr ''OK''), (''MRN no'', JStr ''''), (''Rejected Amount'', JStr '''')]] \<and>
   overlay_mrn ex_po_rows ex4_mrn =
     Inr [[(''po no'', JStr ''100''), (''Material Description'', JStr ''Widget''),
           (''Quantity'', JStr ''5''), (''GRN no'', JStr ''''), (''GRN Date'', JStr ''''),
           (''Delivered Qty'', JStr ''''), (''Remarks'', JStr ''''), (''MRN no'', JStr ''M''),
           (''Rejected Amount'', JStr ''10'')]] \<and>
   merge_engine ex3_po ex2_grn ex4_mrn =
     Inr [[(''po no'', JStr ''7''), (''Quantity'', JStr ''1''), (''GRN no'', JStr ''G''),
           (''GRN Date'', JStr ''D''), (''Delivered Qty'', JStr ''1''), (''Remarks'', JStr ''a''),
           (''MRN no'', JStr ''M''), (''Rejected Amount'', JStr ''10'')],
          [(''po no'', JStr ''7''), (''Quantity'', JStr ''2''), (''GRN no'', JStr ''G''),
           (''GRN Date'', JStr ''D''), (''Delivered Qty'', JStr ''2''), (''Remarks'', JStr ''''),
           (''MRN no'', JStr ''M''), (''Rejected Amount'', JStr '''')],
          [(''po no'', JStr ''7''), (''Quantity'', JStr ''3''), (''GRN no'', JStr ''''),
           (''GRN Date'', JStr ''''), (''Delivered Qty'', JStr ''''), (''Remarks'', JStr ''''),
           (''MRN no'', JStr ''M''), (''Rejected Amount'', JStr ''30'')]]"
  using overlay_positional
    [where rows = ex_po_rows and grn_data = ex_grn
       and ?rows1.0 = "[[(''po no'', JStr ''100''), (''Material Description'', JStr ''Widget''),
           (''Quantity'', JStr ''5''), (''GRN no'', JStr ''G1''),
           (''GRN Date'', JStr ''2024-01-01''), (''Delivered Qty'', JStr ''5''),
           (''Remarks'', JStr ''OK''), (''MRN no'', JStr ''''), (''Rejected Amount'', JStr '''')]]"
       and mrn_data = ex4_mrn
       and ?rows2.0 = "[[(''po no'', JStr ''100''), (''Material Description'', JStr ''Widget''),
           (''Quantity'', JStr ''5''), (''GRN no'', JStr ''''), (''GRN Date'', JStr ''''),
           (''Delivered Qty'', JStr ''''), (''Remarks'', JStr ''''), (''MRN no'', JStr ''M''),
           (''Rejected Amount'', JStr ''10'')]]"
       and po = ex3_po and ph = "[(''po no'', JStr ''7'')]"
       and ?p0.0 = "[(''Quantity'', JStr ''1'')]" and ?p1.0 = "[(''Quantity'', JStr ''2'')]"
       and ?p2.0 = "[(''Quantity'', JStr ''3'')]"
       and grn = ex2_grn and gh = "[(''GRN no'', JStr ''G''), (''GRN Date'', JStr ''D'')]"
       and gno = "JStr ''G''" and gdate = "JStr ''D''"
       and ?g0.0 = "[(''Delivered Qty'', JStr ''1''), (''Remarks'', JStr ''a'')]"
       and ?g1.0 = "[(''Delivered Qty'', JStr ''2'')]"
       and mrn = ex4_mrn and mh = "[(''MRN no'', JStr ''M'')]" and mno = "JStr ''M''"
       and ?m0.0 = "[(''Rejected Amount'', JStr ''10'')]" and ?m1.0 = "[]"
       and ?m2.0 = "[(''Rejected Amount'', JStr ''30'')]"
       and ?m3.0 = "JObj [(''Rejected Amount'', JStr ''40'')]"]
  by (simp add: overlay_grn_def overlay_mrn_def iter_items_def grn_body_def mrn_body_def
        merge_engine_def po_rows_def make_row_def dict_update_def placeholders_def
        ex_po_rows_def ex_grn_def ex3_po_def ex2_grn_def ex4_mrn_def)

subsection \<open>Missing keys\<close>

text \<open>
  Claim C10. With a GRN header that is a dict holding GRN no and GRN Date and GRN items
  that are dicts, the overlay completes, and an item without Delivered Qty or without
  Remarks leaves the empty string in that field of its row; likewise for the MRN overlay
  and Rejected Amount. With a GRN header that is a dict without GRN no or without GRN
  Date, at least one item and at least one row, the overlay raises \<open>KeyError\<close> for the
  first missing key and the merge ends with it; likewise for an MRN header without MRN
  no. With no item or no row, neither overlay reads the header and both return the rows
  unchanged.
\<close>

theorem missing_keys_asymmetry:
  "(getitem grn ''header'' = Inr (JObj gh) \<and> map_of gh ''GRN no'' = Some no \<and>
    map_of gh ''GRN Date'' = Some date \<and> iter_items grn = Inr (map JObj gits) \<longrightarrow>
      (\<exists>rows1. overlay_grn rows grn = Inr rows1 \<and>
         (\<forall>i<length rows. i < length gits \<longrightarrow>
            (map_of (gits ! i) ''Delivered Qty'' = None \<longrightarrow>
               map_of (rows1 ! i) ''Delivered Qty'' = Some (JStr '''')) \<and>
            (map_of (gits ! i) ''Remarks'' = None \<longrightarrow>
               map_of (rows1 ! i) ''Remarks'' = Some (JStr ''''))))) \<and>
   (getitem mrn ''header'' = Inr (JObj mh) \<and> map_of mh ''MRN no'' = Some mno \<and>
    iter_items mrn = Inr (map JObj mits) \<longrightarrow>
      (\<exists>rows2. overlay_mrn rows mrn = Inr rows2 \<and>
         (\<forall>i<length rows. i < length mits \<longrightarrow>
            (map_of (mits ! i) ''Rejected Amount'' = None \<longrightarrow>
               map_of (rows2 ! i) ''Rejected Amount'' = Some (JStr ''''))))) \<and>
   (getitem grn' ''header'' = Inr (JObj gh') \<and>
    (map_of gh' ''GRN no'' = None \<or> map_of gh' ''GRN Date'' = None) \<and>
    iter_items grn' = Inr items \<and> items \<noteq> [] \<and> rows \<noteq> [] \<longrightarrow>
      overlay_grn rows grn' =
        Inl (KeyError (if map_of gh' ''GRN no'' = None then ''GRN no'' else ''GRN Date'')) \<and>
      (po_rows po = Inr rows \<longrightarrow> (\<exists>k. merge_engine po grn' any_mrn = Inl (KeyError k)))) \<and>
   (getitem mrn' ''header'' = Inr (JObj mh') \<and> map_of mh' ''MRN no'' = None \<and>
    iter_items mrn' = Inr items' \<and> items' \<noteq> [] \<and> rows \<noteq> [] \<longrightarrow>
      overlay_mrn rows mrn' = Inl (KeyError ''MRN no'')) \<and>
   (iter_items d = Inr ditems \<and> (ditems = [] \<or> rows = []) \<longrightarrow>
      overlay_grn rows d = Inr rows \<and> overlay_mrn rows d = Inr rows)"
proof (intro conjI impI)
  assume a: "getitem grn ''header'' = Inr (JObj gh) \<and> map_of gh ''GRN no'' = Some no \<and>
    map_of gh ''GRN Date'' = Some date \<and> iter_items grn = Inr (map JObj gits)"
  then have h: "getitem grn ''header'' = Inr (JObj gh)" and n: "map_of gh ''GRN no'' = Some no"
    and dt: "map_of gh ''GRN Date'' = Some date" and it: "iter_items grn = Inr (map JObj gits)"
    by simp_all
  from overlay_grn_mappings[OF h n dt it, of rows] obtain rows1 where
    ok: "overlay_grn rows grn = Inr rows1"
    and f: "\<forall>i<length rows. i < length gits \<longrightarrow>
        map_of (rows1 ! i) ''GRN no'' = Some no \<and>
        map_of (rows1 ! i) ''GRN Date'' = Some date \<and>
        map_of (rows1 ! i) ''Delivered Qty'' = Some (field_or_empty (gits ! i) ''Delivered Qty'') \<and>
        map_of (rows1 ! i) ''Remarks'' = Some (field_or_empty (gits ! i) ''Remarks'')" by blast
  have "\<forall>i<length rows. i < length gits \<longrightarrow>
            (map_of (gits ! i) ''Delivered Qty'' = None \<longrightarrow>
               map_of (rows1 ! i) ''Delivered Qty'' = Some (JStr '''')) \<and>
            (map_of (gits ! i) ''Remarks'' = None \<longrightarrow>
               map_of (rows1 ! i) ''Remarks'' = Some (JStr ''''))"
    using f by (simp add: field_or_empty_missing)
  with ok show "\<exists>rows1. overlay_grn rows grn = Inr rows1 \<and>
         (\<forall>i<length rows. i < length gits \<longrightarrow>
            (map_of (gits ! i) ''Delivered Qty'' = None \<longrightarrow>
               map_of (rows1 ! i) ''Delivered Qty'' = Some (JStr '''')) \<and>
            (map_of (gits ! i) ''Remarks'' = None \<longrightarrow>
               map_of (rows1 ! i) ''Remarks'' = Some (JStr '''')))" by blast
next
  assume a: "getitem mrn ''header'' = Inr (JObj mh) \<and> map_of mh ''MRN no'' = Some mno \<and>
    iter_items mrn = Inr (map JObj mits)"
  then have h: "getitem mrn ''header'' = Inr (JObj mh)" and n: "map_of mh ''MRN no'' = Some mno"
    and it: "iter_items mrn = Inr (map JObj mits)" by simp_all
  from overlay_mrn_mappings[OF h n it, of rows] obtain rows2 where
    ok: "overlay_mrn rows mrn = Inr rows2"
    and f: "\<forall>i<length rows. i < length mits \<longrightarrow>
        map_of (rows2 ! i) ''MRN no'' = Some mno \<and>
        map_of (rows2 ! i) ''Rejected Amount'' = Some (field_or_empty (mits ! i) ''Rejected Amount'')"
    by blast
  have "\<forall>i<length rows. i < length mits \<longrightarrow>
            (map_of (mits ! i) ''Rejected Amount'' = None \<longrightarrow>
               map_of (rows2 ! i) ''Rejected Amount'' = Some (JStr ''''))"
    using f by (simp add: field_or_empty_missing)
  with ok show "\<exists>rows2. overlay_mrn rows mrn = Inr rows2 \<and>
         (\<forall>i<length rows. i < length mits \<longrightarrow>
            (map_of (mits ! i) ''Rejected Amount'' = None \<longrightarrow>
               map_of (rows2 ! i) ''Rejected Amount'' = Some (JStr '''')))" by blast
next
  assume a: "getitem grn' ''header'' = Inr (JObj gh') \<and>
    (map_of gh' ''GRN no'' = None \<or> map_of gh' ''GRN Date'' = None) \<and>
    iter_items grn' = Inr items \<and> items \<noteq> [] \<and> rows \<noteq> []"
  then have h: "getitem grn' ''header'' = Inr (JObj gh')"
    and miss: "map_of gh' ''GRN no'' = None \<or> map_of gh' ''GRN Date'' = None"
    and it: "iter_items grn' = Inr items" and ne: "items \<noteq> []" "rows \<noteq> []"
    by simp_all
  show g: "overlay_grn rows grn' =
        Inl (KeyError (if map_of gh' ''GRN no'' = None then ''GRN no'' else ''GRN Date''))"
    by (rule overlay_grn_missing_key[OF h miss it ne])
  assume "po_rows po = Inr rows"
  with g show "\<exists>k. merge_engine po grn' any_mrn = Inl (KeyError k)"
    by (simp add: merge_engine_def)
next
  assume a: "getitem mrn' ''header'' = Inr (JObj mh') \<and> map_of mh' ''MRN no'' = None \<and>
    iter_items mrn' = Inr items' \<and> items' \<noteq> [] \<and> rows \<noteq> []"
  then have h: "getitem mrn' ''header'' = Inr (JObj mh')"
    and miss: "map_of mh' ''MRN no'' = None"
    and it: "iter_items mrn' = Inr items'" and ne: "items' \<noteq> []" "rows \<noteq> []"
    by simp_all
  show "overlay_mrn rows mrn' = Inl (KeyError ''MRN no'')"
    by (rule overlay_mrn_missing_key[OF h miss it ne])
next
  assume a: "iter_items d = Inr ditems \<and> (ditems = [] \<or> rows = [])"
  then have it: "iter_items d = Inr ditems" and e: "ditems = [] \<or> rows = []" by blast+
  have "overlay_grn rows d = Inr rows \<and> overlay_mrn rows d = Inr rows"
    by (rule overlay_no_overlap[OF it e])
  then show "overlay_grn rows d = Inr rows" "overlay_mrn rows d = Inr rows" by simp_all
qed

theorem missing_keys_asymmetry_witness:
  "overlay_grn ex_po_rows ex_grn_sparse =
     Inr [[(''po no'', JStr ''100''), (''Material Description'', JStr ''Widget''),
           (''Quantity'', JStr ''5''), (''GRN no'', JStr ''G1''),
           (''GRN Date'', JStr ''2024-01-01''), (''Delivered Qty'', JStr ''''),
           (''Remarks'', JStr ''''), (''MRN no'', JStr ''''), (''Rejected Amount'', JStr '''')]] \<and>
   overlay_mrn ex_po_rows ex_mrn_sparse =
     Inr [[(''po no'', JStr ''100''), (''Material Description'', JStr ''Widget''),
           (''Quantity'', JStr ''5''), (''GRN no'', JStr ''''), (''GRN Date'', JStr ''''),
           (''Delivered Qty'', JStr ''''), (''Remarks'', JStr ''''), (''MRN no'', JStr ''M1''),
           (''Rejected Amount'', JStr '''')]] \<and>
   overlay_grn ex_po_rows ex_grn_no_date = Inl (KeyError ''GRN Date'') \<and>
   po_rows ex_po = Inr ex_po_rows \<and>
   merge_engine ex_po ex_grn_no_date ex_mrn = Inl (KeyError ''GRN Date'') \<and>
   overlay_mrn ex_po_rows ex_mrn_no_number = Inl (KeyError ''MRN no'') \<and>
   overlay_grn ex_po_rows ex_no_items = Inr ex_po_rows \<and>
   overlay_mrn ex_po_rows ex_no_items = Inr ex_po_rows"
  using missing_keys_asymmetry
    [where rows = ex_po_rows and grn = ex_grn_sparse
       and gh = "[(''GRN no'', JStr ''G1''), (''GRN Date'', JStr ''2024-01-01'')]"
       and no = "JStr ''G1''" and date = "JStr ''2024-01-01''" and gits = "[[]]"
       and mrn = ex_mrn_sparse and mh = "[(''MRN no'', JStr ''M1'')]" and mno = "JStr ''M1''"
       and mits = "[[]]"
       and grn' = ex_grn_no_date and gh' = "[(''GRN no'', JStr ''G1'')]"
       and items = "[JObj [(''Delivered Qty'', JStr ''5'')]]"
       and po = ex_po and any_mrn = ex_mrn
       and mrn' = ex_mrn_no_number and mh' = "[]"
       and items' = "[JObj [(''Rejected Amount'', JStr ''0'')]]"
       and d = ex_no_items and ditems = "[]"]
  by (simp add: overlay_grn_def overlay_mrn_def iter_items_def grn_body_def mrn_body_def
        merge_engine_def po_rows_def make_row_def dict_update_def placeholders_def
        ex_po_rows_def ex_po_def ex_mrn_def ex_grn_sparse_def ex_mrn_sparse_def
        ex_grn_no_date_def ex_mrn_no_number_def ex_no_items_def)

section \<open>Properties of the document loader\<close>

lemma extract_pages_eq:
  "extract_pages acc pages = acc @ concat (map (\<lambda>t. t @ [CHR 0x0A]) (yielded_texts pages))"
  by (induction acc pages rule: extract_pages.induct) (auto split: option.splits)

lemma join_terminated:
  "xs \<noteq> [] \<Longrightarrow> concat (map (\<lambda>t. t @ sep) xs) = join sep xs @ sep"
  by (induction sep xs rule: join.induct) auto

lemma yielded_texts_empty:
  "(\<forall>p\<in>set pages. p = None \<or> p = Some []) \<Longrightarrow> yielded_texts pages = []"
  by (induction pages rule: yielded_texts.induct) auto

text \<open>
  Claim C5, as stated, makes the loader return the page texts joined by newlines. The
  loader writes a newline after every text, also after the last one: on two pages with
  the texts a and b it returns five characters, not the three of the joined texts.
\<close>

theorem loader_counterexample:
  "extract_pdf_text [Some ''a'', Some ''b'']
     \<noteq> join [CHR 0x0A] (yielded_texts [Some ''a'', Some ''b''])"
  by (simp add: extract_pdf_text_def)

text \<open>
  Claim C5, amended. The loader returns the concatenation, in page order, of the texts
  of the pages that yield text, each followed by a newline: that is the texts joined by
  newlines and one more newline at the end, when some page yields text. A page that yields
  no text (\<open>None\<close> or the empty string) contributes nothing, and a PDF in which no page
  yields text, or without pages, gives the empty string. The loader is a total function:
  it has no error result.
\<close>

theorem loader_terminated_texts:
  "extract_pdf_text file = concat (map (\<lambda>t. t @ [CHR 0x0A]) (yielded_texts file)) \<and>
   (yielded_texts file \<noteq> [] \<longrightarrow>
      extract_pdf_text file = join [CHR 0x0A] (yielded_texts file) @ [CHR 0x0A]) \<and>
   ((\<forall>p\<in>set file. p = None \<or> p = Some []) \<longrightarrow> extract_pdf_text file = [])"
proof (intro conjI impI)
  show e: "extract_pdf_text file = concat (map (\<lambda>t. t @ [CHR 0x0A]) (yielded_texts file))"
    by (simp add: extract_pdf_text_def extract_pages_eq)
  {
    assume "yielded_texts file \<noteq> []"
    then have "concat (map (\<lambda>t. t @ [CHR 0x0A]) (yielded_texts file))
        = join [CHR 0x0A] (yielded_texts file) @ [CHR 0x0A]"
      by (rule join_terminated)
    with e show "extract_pdf_text file = join [CHR 0x0A] (yielded_texts file) @ [CHR 0x0A]"
      by (rule trans)
  }
  {
    assume "\<forall>p\<in>set file. p = None \<or> p = Some []"
    then have "yielded_texts file = []" by (rule yielded_texts_empty)
    then show "extract_pdf_text file = []" by (simp add: e)
  }
qed

theorem loader_terminated_texts_witness:
  "extract_pdf_text [Some ''a'', None, Some [], Some ''b''] = ''a\<newline>b\<newline>'' \<and>
   yielded_texts [Some ''a'', None, Some [], Some ''b''] = [''a'', ''b''] \<and>
   extract_pdf_text [None, Some []] = [] \<and>
   extract_pdf_text [] = []"
  using loader_terminated_texts [of "[Some ''a'', None, Some [], Some ''b'']"]
    loader_terminated_texts [of "[None, Some []]"] loader_terminated_texts [of "[]"]
  by (simp add: extract_pdf_text_def)


section \<open>Properties of the upload guard\<close>

text \<open>
  Claim C7. When the button is pressed and one of the three uploads is absent, the run
  consists of one error message and stops: no file is saved, no PDF is read, no request is
  sent, nothing is merged or exported, whatever the inference service would answer. With
  the three uploads present the run is the pipeline, and without the button nothing
  happens.
\<close>

theorem missing_upload_halts:
  "(po_file = None \<or> grn_file = None \<or> mrn_file = None \<longrightarrow>
      process_pdfs client_chat True po_file grn_file mrn_file =
        ([ShowError ''Please upload PO, GRN and MRN PDFs''], Stopped)) \<and>
   process_pdfs client_chat True (Some po) (Some grn) (Some mrn) =
     run_pipeline client_chat po grn mrn \<and>
   process_pdfs client_chat False po_file grn_file mrn_file = ([], NotTriggered)"
  by (auto simp: process_pdfs_def split: option.splits)

theorem missing_upload_halts_witness:
  "process_pdfs (\<lambda>prompt. Inr ''{}'') True (Some [Some ''po'']) None (Some [Some ''mrn'']) =
     ([ShowError ''Please upload PO, GRN and MRN PDFs''], Stopped) \<and>
   process_pdfs (\<lambda>prompt. Inr ''{}'') True None None None =
     ([ShowError ''Please upload PO, GRN and MRN PDFs''], Stopped)"
  using missing_upload_halts [of "Some [Some ''po'']" None "Some [Some ''mrn'']" "\<lambda>prompt. Inr ''{}''"]
    missing_upload_halts [of None None None "\<lambda>prompt. Inr ''{}''"]
  by simp


section \<open>Properties of the type dispatch\<close>

text \<open>
  Claim C9. Every document type other than PO and GRN selects the MRN schema and the MRN
  instructions, and the prompt is built from them; the selection is a total function with
  three possible values.
\<close>

theorem other_types_use_mrn:
  \<open>(pdf_type \<noteq> ''PO'' \<and> pdf_type \<noteq> ''GRN'' \<longrightarrow>
      select_schema pdf_type = (mrn_schema, mrn_instructions) \<and>
      build_prompt pdf_text pdf_type =
        ''\<newline>You are an expert at reading Indian '' @ pdf_type @ '' PDFs.\<newline>\<newline>'' @
        mrn_instructions @
        ''\<newline>\<newline>Extract data EXACTLY as per the schema.\<newline>Return STRICT JSON ONLY.\<newline>\<newline>Schema:\<newline>'' @
        json_dumps_indent2 mrn_schema @
        ''\<newline>\<newline>PDF Text:\<newline><<<\<newline>'' @ pdf_text @ ''\<newline>>>>\<newline>'') \<and>
   select_schema pdf_type \<in>
     {(po_schema, po_instructions), (grn_schema, grn_instructions),
      (mrn_schema, mrn_instructions)}\<close>
  by (simp add: select_schema_def build_prompt_def)

theorem other_types_use_mrn_witness:
  "select_schema ''Invoice'' = (mrn_schema, mrn_instructions) \<and>
   select_schema ''po'' = (mrn_schema, mrn_instructions) \<and>
   select_schema [] = (mrn_schema, mrn_instructions)"
  using other_types_use_mrn [of "''Invoice''"] other_types_use_mrn [of "''po''"]
    other_types_use_mrn [of "[]"]
  by simp

section \<open>Properties of the response parser\<close>

lemma py_find_first:
  "c \<notin> set pre \<Longrightarrow> py_find (pre @ c # rest) c = int (length pre)"
  by (simp add: py_find_def takeWhile_append)

lemma takeWhile_all: "\<forall>x\<in>set xs. P x \<Longrightarrow> takeWhile P (xs @ ys) = xs @ takeWhile P ys"
  by (induction xs) auto

lemma py_rfind_last:
  assumes "c \<notin> set post"
  shows "py_rfind (pre @ c # post) c = int (length pre)"
proof -
  have "\<forall>x\<in>set (rev post). x \<noteq> c" using assms by auto
  then have "takeWhile (\<lambda>x. x \<noteq> c) (rev post @ c # rev pre)
      = rev post @ takeWhile (\<lambda>x. x \<noteq> c) (c # rev pre)"
    by (rule takeWhile_all)
  then have "takeWhile (\<lambda>x. x \<noteq> c) (rev post @ c # rev pre) = rev post" by simp
  then show ?thesis by (simp add: py_rfind_def)
qed

lemma py_find_absent: "c \<notin> set s \<Longrightarrow> py_find s c = - 1"
  by (simp add: py_find_def)

lemma py_rfind_absent: "c \<notin> set s \<Longrightarrow> py_rfind s c = - 1"
  by (simp add: py_rfind_def)

lemma brace_slice_braced:
  assumes "CHR ''{'' \<notin> set pre" and "CHR ''}'' \<notin> set post"
  shows "brace_slice (pre @ CHR ''{'' # mid @ CHR ''}'' # post) = CHR ''{'' # mid @ [CHR ''}'']"
proof -
  have f: "py_find (pre @ CHR ''{'' # mid @ CHR ''}'' # post) (CHR ''{'') = int (length pre)"
    by (rule py_find_first[OF assms(1)])
  have "py_rfind ((pre @ CHR ''{'' # mid) @ CHR ''}'' # post) (CHR ''}'')
          = int (length (pre @ CHR ''{'' # mid))"
    by (rule py_rfind_last[OF assms(2)])
  then have r: "py_rfind (pre @ CHR ''{'' # mid @ CHR ''}'' # post) (CHR ''}'')
          = int (length pre) + int (length mid) + 1" by simp
  have n: "nat (2 + int (length mid)) = Suc (Suc (length mid))" by simp
  show ?thesis
    by (simp add: brace_slice_def f r py_slice_def Let_def n)
qed

lemma brace_slice_no_open:
  assumes "CHR ''{'' \<notin> set raw"
  shows "brace_slice raw = [] \<or> brace_slice raw = [CHR ''}'']"
proof (cases "CHR ''}'' \<in> set raw")
  case False
  then show ?thesis
    by (simp add: brace_slice_def py_find_absent[OF assms] py_rfind_absent py_slice_def Let_def)
next
  case True
  then obtain pre post where raw: "raw = pre @ CHR ''}'' # post" and post: "CHR ''}'' \<notin> set post"
    by (auto dest: split_list_last)
  have r: "py_rfind raw (CHR ''}'') = int (length pre)"
    unfolding raw by (rule py_rfind_last[OF post])
  show ?thesis
  proof (cases post)
    case Nil
    with raw have "brace_slice raw = [CHR ''}'']"
      using py_find_absent[OF assms] r by (simp add: brace_slice_def py_slice_def Let_def)
    then show ?thesis by simp
  next
    case (Cons a list)
    with raw have "brace_slice raw = []"
      using py_find_absent[OF assms] r by (simp add: brace_slice_def py_slice_def Let_def)
    then show ?thesis by simp
  qed
qed

lemma json_loads_empty: "json_loads [] = Inl JSONDecodeError"
  by (simp add: json_loads_def skip_ws_def)

lemma json_loads_closing_brace: "json_loads [CHR ''}''] = Inl JSONDecodeError"
  by code_simp

text \<open>
  Claim C3. The parser decodes the brace slice of the raw text. When the text has an
  opening brace and, after it, a closing brace, the slice runs from the first opening
  brace to the last closing brace, both included. The text \<^verbatim>\<open>blah {"a":1} blah\<close> decodes
  to the mapping of a to 1; a text without opening brace fails with a decode error (its
  slice is empty or a lone closing brace); \<^verbatim>\<open>{a:1}\<close> fails with a decode error.
\<close>

theorem response_parser:
  \<open>(CHR ''{'' \<notin> set pre \<and> CHR ''}'' \<notin> set post \<longrightarrow>
      brace_slice (pre @ CHR ''{'' # mid @ CHR ''}'' # post) = CHR ''{'' # mid @ [CHR ''}''] \<and>
      parse_response (pre @ CHR ''{'' # mid @ CHR ''}'' # post)
        = json_loads (CHR ''{'' # mid @ [CHR ''}''])) \<and>
   parse_response ''blah {"a":1} blah'' = Inr (JObj [(''a'', JInt 1)]) \<and>
   (CHR ''{'' \<notin> set raw \<longrightarrow> parse_response raw = Inl JSONDecodeError) \<and>
   parse_response ''{a:1}'' = Inl JSONDecodeError\<close>
proof (intro conjI impI)
  assume a: "CHR ''{'' \<notin> set pre \<and> CHR ''}'' \<notin> set post"
  then have p: "CHR ''{'' \<notin> set pre" and q: "CHR ''}'' \<notin> set post" by simp_all
  show b: "brace_slice (pre @ CHR ''{'' # mid @ CHR ''}'' # post) = CHR ''{'' # mid @ [CHR ''}'']"
    by (rule brace_slice_braced[OF p q])
  show "parse_response (pre @ CHR ''{'' # mid @ CHR ''}'' # post)
        = json_loads (CHR ''{'' # mid @ [CHR ''}''])"
    by (simp only: parse_response_def b)
next
  show \<open>parse_response ''blah {"a":1} blah'' = Inr (JObj [(''a'', JInt 1)])\<close>
    by code_simp
next
  assume "CHR ''{'' \<notin> set raw"
  from brace_slice_no_open[OF this] show "parse_response raw = Inl JSONDecodeError"
    by (auto simp: parse_response_def json_loads_empty json_loads_closing_brace)
next
  show "parse_response ''{a:1}'' = Inl JSONDecodeError" by code_simp
qed

theorem response_parser_witness:
  \<open>parse_response ''Sure: {"header": {"po no": "100"}, "items": []} Done.''
     = Inr (JObj [(''header'', JObj [(''po no'', JStr ''100'')]), (''items'', JArr [])]) \<and>
   brace_slice ''Sure: {"header": {"po no": "100"}, "items": []} Done.''
     = ''{"header": {"po no": "100"}, "items": []}'' \<and>
   parse_response ''no json here'' = Inl JSONDecodeError \<and>
   parse_response ''stray }'' = Inl JSONDecodeError\<close>
  using response_parser [of "''Sure: ''" "'' Done.''" \<open>''"header": {"po no": "100"}, "items": []''\<close> "''no json here''"]
    response_parser [of "[]" "[]" "[]" "''stray }''"]
  by (simp add: json_loads_def skip_ws_def is_ws_def; code_simp)

section \<open>Properties of the prompt builder\<close>

lemma sublist_mid: "sublist x y \<Longrightarrow> sublist x (p @ y @ s)"
proof -
  assume "sublist x y"
  then obtain ps ss where "y = ps @ x @ ss" by (auto simp: sublist_def)
  then have "p @ y @ s = (p @ ps) @ x @ (ss @ s)" by simp
  then show ?thesis unfolding sublist_def by blast
qed

lemma po_field_names:
  "field_names po_schema =
     [''CHAIN'', ''SITE'', ''STATE'', ''Vendor Code'', ''vendor name'', ''po no'', ''po date'',
      ''DELIVERY DATE'', ''Material Description'', ''Quantity'', ''total pcs'', ''Base Cost'',
      ''Total Base Value'']"
  by (simp add: field_names_def po_schema_def iter_items_def)

lemma grn_field_names:
  "field_names grn_schema = [''GRN no'', ''GRN Date'', ''Delivered Qty'', ''Remarks'']"
  by (simp add: field_names_def grn_schema_def iter_items_def)

lemma mrn_field_names:
  "field_names mrn_schema = [''MRN no'', ''Rejected Amount'']"
  by (simp add: field_names_def mrn_schema_def iter_items_def)

lemma po_names_dumped:
  "\<forall>k\<in>set (field_names po_schema).
     sublist ([CHR 0x22] @ k @ [CHR 0x22]) (json_dumps_indent2 po_schema)"
  by code_simp

lemma grn_names_dumped:
  "\<forall>k\<in>set (field_names grn_schema).
     sublist ([CHR 0x22] @ k @ [CHR 0x22]) (json_dumps_indent2 grn_schema)"
  by code_simp

lemma mrn_names_dumped:
  "\<forall>k\<in>set (field_names mrn_schema).
     sublist ([CHR 0x22] @ k @ [CHR 0x22]) (json_dumps_indent2 mrn_schema)"
  by code_simp

lemma instructions_distinct:
  "po_instructions \<noteq> grn_instructions" "po_instructions \<noteq> mrn_instructions"
  "grn_instructions \<noteq> mrn_instructions"
  by (simp_all add: po_instructions_def grn_instructions_def mrn_instructions_def)


lemma select_schema_cases:
  assumes "select_schema pdf_type = (schema, instructions)"
  shows "(schema, instructions) = (po_schema, po_instructions) \<or>
         (schema, instructions) = (grn_schema, grn_instructions) \<or>
         (schema, instructions) = (mrn_schema, mrn_instructions)"
  using assms by (auto simp: select_schema_def split: if_splits)

lemma names_dumped:
  assumes "select_schema pdf_type = (schema, instructions)"
  shows "\<forall>k\<in>set (field_names schema).
     sublist ([CHR 0x22] @ k @ [CHR 0x22]) (json_dumps_indent2 schema)"
  using select_schema_cases[OF assms] po_names_dumped grn_names_dumped mrn_names_dumped
  by blast

text \<open>
  Claim C6. Whatever the document type, with the schema and the instructions that the
  dispatch selects for it, the prompt contains every field name of the schema (as a quoted
  key of the serialised schema), the complete instruction text, the role statement naming
  the document type, the serialised schema under its heading, and the PDF text between the
  markers \<^verbatim>\<open><<<\<close> and \<^verbatim>\<open>>>>\<close>. The types PO, GRN and MRN select the three fixed pairs of
  schema and instructions, whose instruction texts are pairwise different.
\<close>

theorem prompt_contents:
  \<open>(select_schema pdf_type = (schema, instructions) \<longrightarrow>
      (\<forall>k\<in>set (field_names schema).
         sublist ([CHR 0x22] @ k @ [CHR 0x22]) (build_prompt pdf_text pdf_type)) \<and>
      sublist instructions (build_prompt pdf_text pdf_type) \<and>
      sublist (''You are an expert at reading Indian '' @ pdf_type @ '' PDFs.'')
        (build_prompt pdf_text pdf_type) \<and>
      sublist (''Schema:\<newline>'' @ json_dumps_indent2 schema) (build_prompt pdf_text pdf_type) \<and>
      sublist (''PDF Text:\<newline><<<\<newline>'' @ pdf_text @ ''\<newline>>>>\<newline>'')
        (build_prompt pdf_text pdf_type)) \<and>
   select_schema ''PO'' = (po_schema, po_instructions) \<and>
   select_schema ''GRN'' = (grn_schema, grn_instructions) \<and>
   select_schema ''MRN'' = (mrn_schema, mrn_instructions) \<and>
   distinct [po_instructions, grn_instructions, mrn_instructions] \<and>
   field_names po_schema =
     [''CHAIN'', ''SITE'', ''STATE'', ''Vendor Code'', ''vendor name'', ''po no'', ''po date'',
      ''DELIVERY DATE'', ''Material Description'', ''Quantity'', ''total pcs'', ''Base Cost'',
      ''Total Base Value''] \<and>
   field_names grn_schema = [''GRN no'', ''GRN Date'', ''Delivered Qty'', ''Remarks''] \<and>
   field_names mrn_schema = [''MRN no'', ''Rejected Amount'']\<close>
proof (intro conjI impI)
  assume sel: "select_schema pdf_type = (schema, instructions)"
  have dumps: \<open>build_prompt pdf_text pdf_type =
      (''\<newline>You are an expert at reading Indian '' @ pdf_type @ '' PDFs.\<newline>\<newline>'' @ instructions @ ''\<newline>\<newline>Extract data EXACTLY as per the schema.\<newline>Return STRICT JSON ONLY.\<newline>\<newline>Schema:\<newline>'')
      @ json_dumps_indent2 schema @ (''\<newline>\<newline>PDF Text:\<newline><<<\<newline>'' @ pdf_text @ ''\<newline>>>>\<newline>'')\<close>
    by (simp add: build_prompt_def sel)
  show "\<forall>k\<in>set (field_names schema).
         sublist ([CHR 0x22] @ k @ [CHR 0x22]) (build_prompt pdf_text pdf_type)"
  proof
    fix k assume "k \<in> set (field_names schema)"
    with names_dumped[OF sel]
    have "sublist ([CHR 0x22] @ k @ [CHR 0x22]) (json_dumps_indent2 schema)" by blast
    then show "sublist ([CHR 0x22] @ k @ [CHR 0x22]) (build_prompt pdf_text pdf_type)"
      unfolding dumps by (rule sublist_mid)
  qed
  have instr: \<open>build_prompt pdf_text pdf_type =
      (''\<newline>You are an expert at reading Indian '' @ pdf_type @ '' PDFs.\<newline>\<newline>'') @ instructions @
      (''\<newline>\<newline>Extract data EXACTLY as per the schema.\<newline>Return STRICT JSON ONLY.\<newline>\<newline>Schema:\<newline>'' @ json_dumps_indent2 schema @ ''\<newline>\<newline>PDF Text:\<newline><<<\<newline>'' @ pdf_text @ ''\<newline>>>>\<newline>'')\<close>
    by (simp add: build_prompt_def sel)
  show "sublist instructions (build_prompt pdf_text pdf_type)"
    unfolding instr by (rule sublist_appendI)
  have role: \<open>build_prompt pdf_text pdf_type =
      ''\<newline>'' @ (''You are an expert at reading Indian '' @ pdf_type @ '' PDFs.'') @
      (''\<newline>\<newline>'' @ instructions @ ''\<newline>\<newline>Extract data EXACTLY as per the schema.\<newline>Return STRICT JSON ONLY.\<newline>\<newline>Schema:\<newline>'' @ json_dumps_indent2 schema @ ''\<newline>\<newline>PDF Text:\<newline><<<\<newline>'' @ pdf_text @ ''\<newline>>>>\<newline>'')\<close>
    by (simp add: build_prompt_def sel)
  show "sublist (''You are an expert at reading Indian '' @ pdf_type @ '' PDFs.'')
        (build_prompt pdf_text pdf_type)"
    unfolding role by (rule sublist_appendI)
  have sch: \<open>build_prompt pdf_text pdf_type =
      (''\<newline>You are an expert at reading Indian '' @ pdf_type @ '' PDFs.\<newline>\<newline>'' @ instructions @
        ''\<newline>\<newline>Extract data EXACTLY as per the schema.\<newline>Return STRICT JSON ONLY.\<newline>\<newline>'') @
      (''Schema:\<newline>'' @ json_dumps_indent2 schema) @ (''\<newline>\<newline>PDF Text:\<newline><<<\<newline>'' @ pdf_text @ ''\<newline>>>>\<newline>'')\<close>
    by (simp add: build_prompt_def sel)
  show \<open>sublist (''Schema:\<newline>'' @ json_dumps_indent2 schema) (build_prompt pdf_text pdf_type)\<close>
    unfolding sch by (rule sublist_appendI)
  have tail: \<open>build_prompt pdf_text pdf_type =
      (''\<newline>You are an expert at reading Indian '' @ pdf_type @ '' PDFs.\<newline>\<newline>'' @ instructions @ ''\<newline>\<newline>Extract data EXACTLY as per the schema.\<newline>Return STRICT JSON ONLY.\<newline>\<newline>Schema:\<newline>'' @ json_dumps_indent2 schema @ ''\<newline>\<newline>'') @
      (''PDF Text:\<newline><<<\<newline>'' @ pdf_text @ ''\<newline>>>>\<newline>'') @ []\<close>
    by (simp add: build_prompt_def sel)
  show \<open>sublist (''PDF Text:\<newline><<<\<newline>'' @ pdf_text @ ''\<newline>>>>\<newline>'')
        (build_prompt pdf_text pdf_type)\<close>
    unfolding tail by (rule sublist_appendI)
next
  show "select_schema ''PO'' = (po_schema, po_instructions)"
    "select_schema ''GRN'' = (grn_schema, grn_instructions)"
    "select_schema ''MRN'' = (mrn_schema, mrn_instructions)"
    by (simp_all add: select_schema_def)
  show "distinct [po_instructions, grn_instructions, mrn_instructions]"
    using instructions_distinct by simp
  show "field_names po_schema =
     [''CHAIN'', ''SITE'', ''STATE'', ''Vendor Code'', ''vendor name'', ''po no'', ''po date'',
      ''DELIVERY DATE'', ''Material Description'', ''Quantity'', ''total pcs'', ''Base Cost'',
      ''Total Base Value'']"
    by (rule po_field_names)
  show "field_names grn_schema = [''GRN no'', ''GRN Date'', ''Delivered Qty'', ''Remarks'']"
    by (rule grn_field_names)
  show "field_names mrn_schema = [''MRN no'', ''Rejected Amount'']"
    by (rule mrn_field_names)
qed

theorem prompt_contents_witness:
  \<open>select_schema ''GRN'' = (grn_schema, grn_instructions) \<and>
   sublist ''"Delivered Qty"'' (build_prompt ''page one'' ''GRN'') \<and>
   sublist ''"GRN Date"'' (build_prompt ''page one'' ''GRN'') \<and>
   sublist grn_instructions (build_prompt ''page one'' ''GRN'') \<and>
   sublist ''You are an expert at reading Indian GRN PDFs.'' (build_prompt ''page one'' ''GRN'') \<and>
   sublist ''PDF Text:\<newline><<<\<newline>page one\<newline>>>>\<newline>'' (build_prompt ''page one'' ''GRN'')\<close>
  using prompt_contents [of "''GRN''" grn_schema grn_instructions "''page one''"]
  by (simp add: grn_field_names)

end
